theory Spec2Isabelle
  imports Complex_Main "HOL-Library.AList"
begin

section \<open>Floating-point values of the data frames\<close>

text \<open>
  The columns of the price history are pandas series of 64-bit floats. A value is
  modelled as an exact real number or one of the three IEEE special values. Rounding,
  overflow of finite operands and the sign of zero are not modelled: the arithmetic
  below is IEEE arithmetic on the extended reals, with every undefined form
  (\<open>0/0\<close>, \<open>inf - inf\<close>, \<open>0 * inf\<close>, \<open>inf/inf\<close>) yielding \<open>NaN\<close> and
  \<open>NaN\<close> propagating through every operation. Division of a non-zero number by zero
  is an infinity, as numpy computes it; nothing raises.
\<close>

datatype fval = NaN | NInf | PInf | Num real

fun fneg :: "fval \<Rightarrow> fval" where
  "fneg NaN = NaN"
| "fneg NInf = PInf"
| "fneg PInf = NInf"
| "fneg (Num a) = Num (- a)"

fun fabs :: "fval \<Rightarrow> fval" where
  "fabs NaN = NaN"
| "fabs NInf = PInf"
| "fabs PInf = PInf"
| "fabs (Num a) = Num \<bar>a\<bar>"

fun fadd :: "fval \<Rightarrow> fval \<Rightarrow> fval" where
  "fadd NaN _ = NaN"
| "fadd _ NaN = NaN"
| "fadd PInf NInf = NaN"
| "fadd NInf PInf = NaN"
| "fadd PInf _ = PInf"
| "fadd _ PInf = PInf"
| "fadd NInf _ = NInf"
| "fadd _ NInf = NInf"
| "fadd (Num a) (Num b) = Num (a + b)"

definition fsub :: "fval \<Rightarrow> fval \<Rightarrow> fval" where
  "fsub x y = fadd x (fneg y)"

definition inf_of_sign :: "bool \<Rightarrow> fval" where
  "inf_of_sign positive = (if positive then PInf else NInf)"

fun fmul :: "fval \<Rightarrow> fval \<Rightarrow> fval" where
  "fmul NaN _ = NaN"
| "fmul _ NaN = NaN"
| "fmul (Num a) (Num b) = Num (a * b)"
| "fmul (Num a) PInf = (if a = 0 then NaN else inf_of_sign (0 < a))"
| "fmul (Num a) NInf = (if a = 0 then NaN else inf_of_sign (a < 0))"
| "fmul PInf (Num b) = (if b = 0 then NaN else inf_of_sign (0 < b))"
| "fmul NInf (Num b) = (if b = 0 then NaN else inf_of_sign (b < 0))"
| "fmul PInf PInf = PInf"
| "fmul NInf NInf = PInf"
| "fmul PInf NInf = NInf"
| "fmul NInf PInf = NInf"

fun fdiv :: "fval \<Rightarrow> fval \<Rightarrow> fval" where
  "fdiv NaN _ = NaN"
| "fdiv _ NaN = NaN"
| "fdiv (Num a) (Num b) =
     (if b = 0 then (if a = 0 then NaN else inf_of_sign (0 < a)) else Num (a / b))"
| "fdiv (Num a) PInf = Num 0"
| "fdiv (Num a) NInf = Num 0"
| "fdiv PInf (Num b) = inf_of_sign (0 \<le> b)"
| "fdiv NInf (Num b) = inf_of_sign (b < 0)"
| "fdiv PInf PInf = NaN"
| "fdiv PInf NInf = NaN"
| "fdiv NInf PInf = NaN"
| "fdiv NInf NInf = NaN"

text \<open>Comparisons with \<open>NaN\<close> are false, as in IEEE arithmetic.\<close>

fun flt :: "fval \<Rightarrow> fval \<Rightarrow> bool" where
  "flt NaN _ = False"
| "flt _ NaN = False"
| "flt (Num a) (Num b) = (a < b)"
| "flt NInf NInf = False"
| "flt NInf _ = True"
| "flt _ NInf = False"
| "flt PInf _ = False"
| "flt _ PInf = True"

definition fle :: "fval \<Rightarrow> fval \<Rightarrow> bool" where
  "fle x y = (x \<noteq> NaN \<and> y \<noteq> NaN \<and> (x = y \<or> flt x y))"

definition isna :: "fval \<Rightarrow> bool" where
  "isna x = (x = NaN)"

text \<open>The number of leading undefined entries of a column.\<close>

definition leading_undefined :: "fval list \<Rightarrow> nat" where
  "leading_undefined xs = length (takeWhile isna xs)"

section \<open>The pandas operations the script uses\<close>

text \<open>
  The pandas library is not part of the repository. Each operation the script calls is
  modelled after its documented behaviour on a float series with default arguments.
  All series of one frame share the frame's index, so element-wise operations align by
  position.
\<close>

definition s_add :: "fval list \<Rightarrow> fval list \<Rightarrow> fval list" where
  "s_add xs ys = map2 fadd xs ys"

definition s_sub :: "fval list \<Rightarrow> fval list \<Rightarrow> fval list" where
  "s_sub xs ys = map2 fsub xs ys"

definition s_div :: "fval list \<Rightarrow> fval list \<Rightarrow> fval list" where
  "s_div xs ys = map2 fdiv xs ys"

definition s_neg :: "fval list \<Rightarrow> fval list" where
  "s_neg xs = map fneg xs"

definition s_abs :: "fval list \<Rightarrow> fval list" where
  "s_abs xs = map fabs xs"

text \<open>\<^verbatim>\<open>s.diff()\<close>: the first entry is undefined, entry \<open>i\<close> is \<open>s[i] - s[i-1]\<close>.\<close>

definition diff :: "fval list \<Rightarrow> fval list" where
  "diff xs = (case xs of [] \<Rightarrow> [] | _ # rest \<Rightarrow> NaN # map2 fsub rest xs)"

text \<open>\<^verbatim>\<open>s.shift()\<close>: every entry moves one position later, the first is undefined.\<close>

definition shift :: "fval list \<Rightarrow> fval list" where
  "shift xs = (case xs of [] \<Rightarrow> [] | _ \<Rightarrow> NaN # butlast xs)"

text \<open>\<^verbatim>\<open>s.where(cond, other)\<close>: keeps an entry where the condition holds, else \<open>other\<close>.\<close>

definition s_where :: "(fval \<Rightarrow> bool) \<Rightarrow> fval \<Rightarrow> fval list \<Rightarrow> fval list" where
  "s_where cond other xs = map (\<lambda>x. if cond x then x else other) xs"

text \<open>
  \<^verbatim>\<open>pd.concat([a, b, c], axis=1).max(axis=1)\<close>: the row-wise maximum, skipping
  undefined entries (\<open>skipna\<close> is on by default); a row of undefined entries only is
  undefined.
\<close>

fun fmax_skipna :: "fval \<Rightarrow> fval \<Rightarrow> fval" where
  "fmax_skipna NaN y = y"
| "fmax_skipna x NaN = x"
| "fmax_skipna x y = (if flt x y then y else x)"

definition row_max3 :: "fval list \<Rightarrow> fval list \<Rightarrow> fval list \<Rightarrow> fval list" where
  "row_max3 xs ys zs =
     map (\<lambda>(x, y, z). fmax_skipna x (fmax_skipna y z)) (zip xs (zip ys zs))"

subsection \<open>Rolling windows\<close>

text \<open>
  \<^verbatim>\<open>s.rolling(window=w)\<close> looks, at position \<open>i\<close>, at the trailing \<open>w\<close> entries
  ending at \<open>i\<close> (fewer near the start). pandas replaces infinities by \<open>NaN\<close> before a
  rolling aggregation and counts the remaining observations; with the default
  \<open>min_periods = w\<close> the result is undefined unless the window holds \<open>w\<close> of them.
\<close>

definition window :: "nat \<Rightarrow> 'a list \<Rightarrow> nat \<Rightarrow> 'a list" where
  "window w xs i = drop (Suc i - w) (take (Suc i) xs)"

fun observations :: "fval list \<Rightarrow> real list" where
  "observations [] = []"
| "observations (Num r # xs) = r # observations xs"
| "observations (_ # xs) = observations xs"

definition rolling :: "nat \<Rightarrow> (real list \<Rightarrow> fval) \<Rightarrow> fval list \<Rightarrow> fval list" where
  "rolling w agg xs =
     map (\<lambda>i. let obs = observations (window w xs i)
              in if w \<le> length obs then agg obs else NaN) [0..<length xs]"

definition mean :: "real list \<Rightarrow> fval" where
  "mean obs = Num (sum_list obs / real (length obs))"

text \<open>\<^verbatim>\<open>.std()\<close> is the sample standard deviation (\<open>ddof = 1\<close>).\<close>

definition std :: "real list \<Rightarrow> fval" where
  "std obs =
     (if length obs \<le> 1 then NaN
      else let m = sum_list obs / real (length obs)
           in Num (sqrt (sum_list (map (\<lambda>x. (x - m)\<^sup>2) obs) / real (length obs - 1))))"

fun min_of :: "real list \<Rightarrow> real" where
  "min_of [] = 0"
| "min_of [x] = x"
| "min_of (x # xs) = min x (min_of xs)"

fun max_of :: "real list \<Rightarrow> real" where
  "max_of [] = 0"
| "max_of [x] = x"
| "max_of (x # xs) = max x (max_of xs)"

definition rolling_mean :: "nat \<Rightarrow> fval list \<Rightarrow> fval list" where
  "rolling_mean w xs = rolling w mean xs"

definition rolling_std :: "nat \<Rightarrow> fval list \<Rightarrow> fval list" where
  "rolling_std w xs = rolling w std xs"

definition rolling_min :: "nat \<Rightarrow> fval list \<Rightarrow> fval list" where
  "rolling_min w xs = rolling w (\<lambda>obs. Num (min_of obs)) xs"

definition rolling_max :: "nat \<Rightarrow> fval list \<Rightarrow> fval list" where
  "rolling_max w xs = rolling w (\<lambda>obs. Num (max_of obs)) xs"

subsection \<open>Exponentially weighted mean\<close>

text \<open>
  \<^verbatim>\<open>s.ewm(span=n, adjust=b).mean()\<close> with the defaults \<open>min_periods = 0\<close> and
  \<open>ignore_na = False\<close>. The smoothing factor is \<open>2 / (n + 1)\<close>. pandas keeps the
  running mean \<open>weighted\<close> and the weight \<open>old_wt\<close> of the history: every position
  decays the history's weight; an observation is mixed in with weight \<open>1\<close> (adjusted)
  or \<open>alpha\<close> (unadjusted, the history's weight then reset to \<open>1\<close>); an undefined
  entry leaves the mean as it is; an undefined mean restarts at the next observation.
\<close>

definition ewm_step :: "real \<Rightarrow> bool \<Rightarrow> fval \<times> real \<Rightarrow> fval \<Rightarrow> fval \<times> real" where
  "ewm_step alpha adjust st cur =
     (let weighted = fst st; old_wt = snd st in
      if weighted \<noteq> NaN then
        (let old_wt = old_wt * (1 - alpha) in
         if cur \<noteq> NaN then
           (let new_wt = (if adjust then 1 else alpha);
                weighted =
                  (if weighted \<noteq> cur
                   then fdiv (fadd (fmul (Num old_wt) weighted) (fmul (Num new_wt) cur))
                          (Num (old_wt + new_wt))
                   else weighted)
            in (weighted, if adjust then old_wt + new_wt else 1))
         else (weighted, old_wt))
      else if cur \<noteq> NaN then (cur, old_wt)
      else (weighted, old_wt))"

fun ewm_scan :: "real \<Rightarrow> bool \<Rightarrow> fval \<times> real \<Rightarrow> fval list \<Rightarrow> fval list" where
  "ewm_scan alpha adjust st [] = []"
| "ewm_scan alpha adjust st (cur # rest) =
     (let st' = ewm_step alpha adjust st cur
      in fst st' # ewm_scan alpha adjust st' rest)"

text \<open>
  As before a rolling aggregation, pandas replaces infinities by \<open>NaN\<close> before it
  computes the mean, so only finite numbers enter it.
\<close>

definition inf_to_nan :: "fval \<Rightarrow> fval" where
  "inf_to_nan x = (case x of Num r \<Rightarrow> Num r | _ \<Rightarrow> NaN)"

definition ewm_mean :: "nat \<Rightarrow> bool \<Rightarrow> fval list \<Rightarrow> fval list" where
  "ewm_mean span_n adjust xs =
     (case map inf_to_nan xs of [] \<Rightarrow> []
      | x # rest \<Rightarrow> x # ewm_scan (2 / (real span_n + 1)) adjust (x, 1) rest)"

section \<open>The price history and the augmented frame\<close>

text \<open>
  A price history is the data frame \<^verbatim>\<open>stock.history(...)\<close> returns: a date index
  and one column per quantity. Its length \<^verbatim>\<open>len(hist)\<close> is the length of the index.
  In a data frame every column is as long as the index (\<open>wf_hist\<close>).
\<close>

record date =
  stamp :: int
  tz :: "string option"

record hist =
  Date :: "date list"
  Open :: "fval list"
  High :: "fval list"
  Low :: "fval list"
  Close :: "fval list"
  Volume :: "int list"

definition wf_hist :: "hist \<Rightarrow> bool" where
  "wf_hist h =
     (length (Open h) = length (Date h) \<and> length (High h) = length (Date h) \<and>
      length (Low h) = length (Date h) \<and> length (Close h) = length (Date h) \<and>
      length (Volume h) = length (Date h))"

record frame = hist +
  MA_50D :: "fval list"
  MA_200D :: "fval list"
  MACD_Line :: "fval list"
  MACD_Signal :: "fval list"
  MACD_Hist :: "fval list"
  RSI :: "fval list"
  BB_Middle :: "fval list"
  BB_Upper :: "fval list"
  BB_Lower :: "fval list"
  Stoch_K :: "fval list"
  Stoch_D :: "fval list"
  ATR :: "fval list"
  Ticker :: "string list"
  Sector :: "string option list"
  Industry :: "string option list"

subsection \<open>The indicators (lines 40 to 77 of the script)\<close>

definition macd_line :: "fval list \<Rightarrow> fval list" where
  "macd_line close =
     (let ema12 = ewm_mean 12 True close;
          ema26 = ewm_mean 26 True close
      in s_sub ema12 ema26)"

definition macd_signal :: "fval list \<Rightarrow> fval list" where
  "macd_signal close = ewm_mean 9 False (macd_line close)"

definition macd_hist :: "fval list \<Rightarrow> fval list" where
  "macd_hist close = s_sub (macd_line close) (macd_signal close)"

definition gain :: "fval list \<Rightarrow> fval list" where
  "gain close = s_where (\<lambda>d. flt (Num 0) d) (Num 0) (diff close)"

definition loss :: "fval list \<Rightarrow> fval list" where
  "loss close = s_neg (s_where (\<lambda>d. flt d (Num 0)) (Num 0) (diff close))"

definition rsi :: "fval list \<Rightarrow> fval list" where
  "rsi close =
     (let avg_gain = rolling_mean 14 (gain close);
          avg_loss = rolling_mean 14 (loss close);
          rs = s_div avg_gain avg_loss
      in map (\<lambda>r. fsub (Num 100) (fdiv (Num 100) (fadd (Num 1) r))) rs)"

definition bb_upper :: "fval list \<Rightarrow> fval list" where
  "bb_upper close =
     s_add (rolling_mean 20 close) (map (fmul (Num 2)) (rolling_std 20 close))"

definition bb_lower :: "fval list \<Rightarrow> fval list" where
  "bb_lower close =
     s_sub (rolling_mean 20 close) (map (fmul (Num 2)) (rolling_std 20 close))"

definition stoch_k :: "hist \<Rightarrow> fval list" where
  "stoch_k h =
     (let low_14 = rolling_min 14 (Low h);
          high_14 = rolling_max 14 (High h)
      in s_div (map (fmul (Num 100)) (s_sub (Close h) low_14)) (s_sub high_14 low_14))"

definition stoch_d :: "hist \<Rightarrow> fval list" where
  "stoch_d h = rolling_mean 3 (stoch_k h)"

definition true_range :: "hist \<Rightarrow> fval list" where
  "true_range h =
     (let high_low = s_sub (High h) (Low h);
          high_close = s_abs (s_sub (High h) (shift (Close h)));
          low_close = s_abs (s_sub (Low h) (shift (Close h)))
      in row_max3 high_low high_close low_close)"

definition atr :: "hist \<Rightarrow> fval list" where
  "atr h = rolling_mean 14 (true_range h)"

text \<open>
  The body of the branch \<^verbatim>\<open>if len(hist) >= 200\<close> up to line 82: every assignment
  \<^verbatim>\<open>hist[name] = ...\<close> adds one column; a scalar is broadcast to the length of the
  index. \<^verbatim>\<open>info.get(key)\<close> is \<open>None\<close> for a missing key.
\<close>

definition compute_indicators :: "string \<Rightarrow> (string \<rightharpoonup> string) \<Rightarrow> hist \<Rightarrow> frame" where
  "compute_indicators ticker meta h =
     \<lparr>Date = Date h, Open = Open h, High = High h, Low = Low h, Close = Close h,
      Volume = Volume h,
      MA_50D = rolling_mean 50 (Close h),
      MA_200D = rolling_mean 200 (Close h),
      MACD_Line = macd_line (Close h),
      MACD_Signal = macd_signal (Close h),
      MACD_Hist = macd_hist (Close h),
      RSI = rsi (Close h),
      BB_Middle = rolling_mean 20 (Close h),
      BB_Upper = bb_upper (Close h),
      BB_Lower = bb_lower (Close h),
      Stoch_K = stoch_k h,
      Stoch_D = stoch_d h,
      ATR = atr h,
      Ticker = replicate (length (Date h)) ticker,
      Sector = replicate (length (Date h)) (meta ''sector''),
      Industry = replicate (length (Date h)) (meta ''industry'')\<rparr>"

subsection \<open>The report window (lines 84 to 89)\<close>

definition tail :: "nat \<Rightarrow> 'a list \<Rightarrow> 'a list" where
  "tail n xs = drop (length xs - n) xs"

definition tail_frame :: "nat \<Rightarrow> frame \<Rightarrow> frame" where
  "tail_frame n f =
     \<lparr>Date = tail n (Date f), Open = tail n (Open f), High = tail n (High f),
      Low = tail n (Low f), Close = tail n (Close f), Volume = tail n (Volume f),
      MA_50D = tail n (MA_50D f), MA_200D = tail n (MA_200D f),
      MACD_Line = tail n (MACD_Line f), MACD_Signal = tail n (MACD_Signal f),
      MACD_Hist = tail n (MACD_Hist f), RSI = tail n (RSI f),
      BB_Middle = tail n (BB_Middle f), BB_Upper = tail n (BB_Upper f),
      BB_Lower = tail n (BB_Lower f), Stoch_K = tail n (Stoch_K f),
      Stoch_D = tail n (Stoch_D f), ATR = tail n (ATR f),
      Ticker = tail n (Ticker f), Sector = tail n (Sector f),
      Industry = tail n (Industry f)\<rparr>"

text \<open>
  \<^verbatim>\<open>reset_index()\<close> turns the date index into the column \<open>Date\<close>, which the model
  holds as a column from the start; \<^verbatim>\<open>tz_localize(None)\<close> drops the time zone.
\<close>

definition tz_localize_none :: "date \<Rightarrow> date" where
  "tz_localize_none d = d\<lparr>tz := None\<rparr>"

definition recent_hist :: "frame \<Rightarrow> frame" where
  "recent_hist f = (let r = tail_frame 5 f in r\<lparr>Date := map tz_localize_none (Date r)\<rparr>)"

section \<open>The batch run (\<open>fetch_stock_data\<close>)\<close>

text \<open>
  The yfinance library is not part of the repository; it is a parameter of the model.
  \<^verbatim>\<open>yf.Tickers(names)\<close> either raises or returns an object whose dictionary
  \<^verbatim>\<open>tickers\<close> maps a symbol to a ticker object; reading \<^verbatim>\<open>stock.info\<close> and calling
  \<^verbatim>\<open>stock.history(...)\<close> each either raise or return a value. An exception is a
  value of \<open>exn\<close>: every constructor stands for a subclass of Python's
  \<^verbatim>\<open>Exception\<close>, which is what \<^verbatim>\<open>except Exception\<close> catches.
\<close>

datatype exn =
    KeyError string
  | ImportError string
  | RequestException string
  | ValueError string
  | IndexError string
  | OtherError string

record ticker_obj =
  info :: "exn + (string \<rightharpoonup> string)"
  history :: "exn + hist"

type_synonym tickers = "string \<rightharpoonup> ticker_obj"

type_synonym provider = "string \<Rightarrow> exn + tickers"

text \<open>What the script prints and the files it writes, in order.\<close>

datatype sheet = Summary "frame list" | Sheet string frame

datatype event =
    Print string
  | ProcessingBatch nat nat nat
  | NotEnoughData string
  | ErrorProcessing string exn
  | ErrorFetchingTickers exn
  | MissingDependency exn
  | TickerCount nat
  | FirstTickers "string list"
  | ProcessingAll nat
  | SuccessfullyProcessed nat
  | ToCsv string "string list"
  | ToExcel string "sheet list"

text \<open>
  The dictionary \<^verbatim>\<open>all_data\<close> keeps its keys in insertion order; assigning to a key
  it holds replaces the value in place, which is what \<open>AList.update\<close> does.
\<close>

record state =
  all_data :: "(string \<times> frame) list"
  events :: "event list"

definition emit :: "event \<Rightarrow> state \<Rightarrow> state" where
  "emit e st = st\<lparr>events := events st @ [e]\<rparr>"

text \<open>The body of the inner loop, lines 34 to 96: one ticker of a batch.\<close>

definition process_ticker :: "tickers \<Rightarrow> string \<Rightarrow> state \<Rightarrow> state" where
  "process_ticker data ticker st =
     (case data ticker of
        None \<Rightarrow> emit (ErrorProcessing ticker (KeyError ticker)) st
      | Some stock \<Rightarrow>
          (case info stock of
             Inl e \<Rightarrow> emit (ErrorProcessing ticker e) st
           | Inr meta \<Rightarrow>
               (case history stock of
                  Inl e \<Rightarrow> emit (ErrorProcessing ticker e) st
                | Inr h \<Rightarrow>
                    if 200 \<le> length (Date h)
                    then st\<lparr>all_data :=
                           AList.update ticker (recent_hist (compute_indicators ticker meta h))
                             (all_data st)\<rparr>
                    else emit (NotEnoughData ticker) st)))"

fun join :: "string \<Rightarrow> string list \<Rightarrow> string" where
  "join sep [] = []"
| "join sep [x] = x"
| "join sep (x # xs) = x @ sep @ join sep xs"

text \<open>
  The outer loop, lines 27 to 96, \<^verbatim>\<open>for i in range(0, len(tickers), batch_size)\<close>,
  from position \<open>i\<close> on. A step of zero makes \<^verbatim>\<open>range\<close> raise. The call of
  \<^verbatim>\<open>yf.Tickers\<close> stands outside the \<^verbatim>\<open>try\<close>: when it raises, the run ends with
  that exception.
\<close>

function batches :: "nat \<Rightarrow> provider \<Rightarrow> string list \<Rightarrow> nat \<Rightarrow> state \<Rightarrow> exn + state" where
  "batches batch_size yf_Tickers tickers i st =
     (if batch_size = 0 then Inl (ValueError ''range() arg 3 must not be zero'')
      else if i < length tickers then
        (let batch_tickers = take batch_size (drop i tickers);
             st1 = emit (ProcessingBatch (i div batch_size + 1)
                           ((length tickers - 1) div batch_size + 1)
                           (length batch_tickers)) st
         in case yf_Tickers (join '' '' batch_tickers) of
              Inl e \<Rightarrow> Inl e
            | Inr data \<Rightarrow>
                batches batch_size yf_Tickers tickers (i + batch_size)
                  (fold (process_ticker (data)) batch_tickers st1))
      else Inr st)"
  by pat_completeness auto
termination
  by (relation "measure (\<lambda>(batch_size, yf_Tickers, tickers, i, st). length tickers - i)") auto

text \<open>
  The script fixes \<^verbatim>\<open>batch_size = 50\<close>. \<open>fetch_stock_data_grouped\<close> is the same
  function with the group size as a parameter, to compare group sizes.
\<close>

definition fetch_stock_data_grouped :: "nat \<Rightarrow> provider \<Rightarrow> string list \<Rightarrow> exn + state" where
  "fetch_stock_data_grouped batch_size yf_Tickers tickers =
     batches batch_size yf_Tickers tickers 0 \<lparr>all_data = [], events = []\<rparr>"

definition fetch_stock_data :: "provider \<Rightarrow> string list \<Rightarrow> exn + state" where
  "fetch_stock_data yf_Tickers tickers = fetch_stock_data_grouped 50 yf_Tickers tickers"

section \<open>The script\<close>

text \<open>
  \<open>get_sp500_tickers_wikipedia\<close>, lines 6 to 20. Its parameter is the outcome of
  reading the symbol column of the first table of the page (lines 10 to 12). An
  \<^verbatim>\<open>ImportError\<close>, a \<^verbatim>\<open>RequestException\<close> and a \<^verbatim>\<open>ValueError\<close> are caught and
  give the empty list; any other exception leaves the function.
\<close>

definition get_sp500_tickers_wikipedia ::
    "exn + string list \<Rightarrow> exn + (string list \<times> event list)" where
  "get_sp500_tickers_wikipedia read_html =
     (case read_html of
        Inr tickers \<Rightarrow> Inr (tickers, [])
      | Inl (ImportError m) \<Rightarrow>
          Inr ([], [MissingDependency (ImportError m),
                    Print ''Please install required packages: pip install lxml''])
      | Inl (RequestException m) \<Rightarrow> Inr ([], [ErrorFetchingTickers (RequestException m)])
      | Inl (ValueError m) \<Rightarrow> Inr ([], [ErrorFetchingTickers (ValueError m)])
      | Inl e \<Rightarrow> Inl e)"

text \<open>
  The sheets written at lines 120 to 136: the summary holds the last row of every
  non-empty window and is written when there is such a row; then one sheet per
  non-empty window, named by the first 31 characters of the ticker.
\<close>

definition empty_frame :: "frame \<Rightarrow> bool" where
  "empty_frame f = (length (Date f) = 0)"

definition sheets :: "(string \<times> frame) list \<Rightarrow> sheet list" where
  "sheets ticker_data =
     (let summary_data = map (\<lambda>(ticker, hist_df). tail_frame 1 hist_df)
                           (filter (\<lambda>(ticker, hist_df). \<not> empty_frame hist_df) ticker_data)
      in (if summary_data \<noteq> [] then [Summary summary_data] else []) @
         map (\<lambda>(ticker, hist_df). Sheet (take 31 ticker) hist_df)
           (filter (\<lambda>(ticker, hist_df). \<not> empty_frame hist_df) ticker_data))"

text \<open>
  The Excel writer (openpyxl, not part of the repository) raises \<^verbatim>\<open>ValueError\<close> when
  it is given a sheet title that holds a backslash or one of the characters
  \<^verbatim>\<open>* ? : / [ ]\<close>, and \<^verbatim>\<open>IndexError\<close> when the workbook is saved with no sheet
  in it, which happens on leaving the \<^verbatim>\<open>with\<close> block. A title written twice goes to
  the same sheet.
\<close>

fun sheet_title :: "sheet \<Rightarrow> string" where
  "sheet_title (Summary rows) = ''Summary''"
| "sheet_title (Sheet name hist_df) = name"

definition invalid_title :: "string \<Rightarrow> bool" where
  "invalid_title name =
     list_ex (\<lambda>c. c \<in> set [CHR 0x5C, CHR ''*'', CHR ''?'', CHR '':'', CHR ''/'',
                              CHR ''['', CHR '']'']) name"

definition write_excel :: "(string \<times> frame) list \<Rightarrow> exn + sheet list" where
  "write_excel ticker_data =
     (let written = sheets ticker_data
      in case filter (\<lambda>sh. invalid_title (sheet_title sh)) written of
           bad # _ \<Rightarrow> Inl (ValueError (sheet_title bad))
         | [] \<Rightarrow>
             if written = [] then Inl (IndexError ''At least one sheet must be visible'')
             else Inr written)"

text \<open>
  The module-level statements, lines 100 to 140, given the list of tickers line 102
  obtained. The result is everything printed and written, or the exception that ended
  the run.
\<close>

definition script_body :: "provider \<Rightarrow> string list \<Rightarrow> exn + event list" where
  "script_body yf_Tickers sp500_tickers =
     (let out = [TickerCount (length sp500_tickers), FirstTickers (take 5 sp500_tickers)]
      in if sp500_tickers \<noteq> [] then
           (let out = out @ [ToCsv ''sp500_tickers.csv'' sp500_tickers,
                             Print ''S&P 500 tickers saved to sp500_tickers.csv'',
                             ProcessingAll (length sp500_tickers)]
            in case fetch_stock_data yf_Tickers sp500_tickers of
                 Inl e \<Rightarrow> Inl e
               | Inr st \<Rightarrow>
                   (case write_excel (all_data st) of
                      Inl e \<Rightarrow> Inl e
                    | Inr written \<Rightarrow>
                        Inr (out @ events st @
                             [SuccessfullyProcessed (length (all_data st)),
                              Print ''Saving data to Excel file...'',
                              ToExcel ''sp500_analysis.xlsx'' written,
                              Print ''Data saved to sp500_analysis.xlsx with multiple sheets''])))
         else Inr (out @ [Print ''No tickers retrieved. Please check dependencies and try again.'']))"

definition script :: "exn + string list \<Rightarrow> provider \<Rightarrow> exn + event list" where
  "script read_html yf_Tickers =
     (case get_sp500_tickers_wikipedia read_html of
        Inl e \<Rightarrow> Inl e
      | Inr (sp500_tickers, printed) \<Rightarrow>
          (case script_body yf_Tickers sp500_tickers of
             Inl e \<Rightarrow> Inl e
           | Inr out \<Rightarrow>
               Inr ([Print ''Fetching S&P 500 tickers from Wikipedia...''] @ printed @ out)))"

definition writes_file :: "event \<Rightarrow> bool" where
  "writes_file e = (case e of ToCsv _ _ \<Rightarrow> True | ToExcel _ _ \<Rightarrow> True | _ \<Rightarrow> False)"

section \<open>Notions used to state the properties\<close>

text \<open>A value is a finite number when it is neither \<open>NaN\<close> nor an infinity.\<close>

definition is_num :: "fval \<Rightarrow> bool" where
  "is_num x = (case x of Num _ \<Rightarrow> True | _ \<Rightarrow> False)"

definition all_num :: "fval list \<Rightarrow> bool" where
  "all_num xs = list_all is_num xs"

fun the_num :: "fval \<Rightarrow> real" where
  "the_num (Num r) = r"
| "the_num _ = 0"

text \<open>A history whose prices are all finite numbers.\<close>

definition finite_hist :: "hist \<Rightarrow> bool" where
  "finite_hist h =
     (wf_hist h \<and> all_num (Open h) \<and> all_num (High h) \<and> all_num (Low h) \<and> all_num (Close h))"

text \<open>
  The upward and the downward move of bar \<open>j\<close> of a series of closing prices \<open>c\<close>:
  what \<open>gain\<close> and \<open>loss\<close> hold at position \<open>j\<close>. Bar \<open>0\<close> has no predecessor and
  counts as no move.
\<close>

definition up_move :: "(nat \<Rightarrow> real) \<Rightarrow> nat \<Rightarrow> real" where
  "up_move c j = (if j = 0 then 0 else max 0 (c j - c (j - 1)))"

definition down_move :: "(nat \<Rightarrow> real) \<Rightarrow> nat \<Rightarrow> real" where
  "down_move c j = (if j = 0 then 0 else max 0 (c (j - 1) - c j))"

subsection \<open>Example histories\<close>

text \<open>
  A history of \<open>n\<close> bars with the given high, low and closing price of bar \<open>i\<close>; the
  opening price is the closing price.
\<close>

definition synthetic :: "nat \<Rightarrow> (nat \<Rightarrow> real) \<Rightarrow> (nat \<Rightarrow> real) \<Rightarrow> (nat \<Rightarrow> real) \<Rightarrow> hist" where
  "synthetic n hi lo cl =
     \<lparr>Date = map (\<lambda>i. \<lparr>stamp = int i, tz = Some ''America/New_York''\<rparr>) [0..<n],
      Open = map (\<lambda>i. Num (cl i)) [0..<n],
      High = map (\<lambda>i. Num (hi i)) [0..<n],
      Low = map (\<lambda>i. Num (lo i)) [0..<n],
      Close = map (\<lambda>i. Num (cl i)) [0..<n],
      Volume = map (\<lambda>i. 1000) [0..<n]\<rparr>"

text \<open>200 bars whose close rises by one every day, from 100.\<close>

definition ramp_hist :: hist where
  "ramp_hist = synthetic 200 (\<lambda>i. 101 + real i) (\<lambda>i. 99 + real i) (\<lambda>i. 100 + real i)"

text \<open>200 bars that never move: every price is 10.\<close>

definition flat_hist :: hist where
  "flat_hist = synthetic 200 (\<lambda>i. 10) (\<lambda>i. 10) (\<lambda>i. 10)"

subsection \<open>The outcome for one ticker\<close>

text \<open>
  What the body of the inner loop does with one ticker, as a value: it records a window,
  it skips the ticker for lack of data, or an exception was caught. \<open>record_result\<close>
  is the effect of that outcome on the dictionary.
\<close>

datatype result = Recorded frame | Skipped | Failed exn

definition ticker_result :: "tickers \<Rightarrow> string \<Rightarrow> result" where
  "ticker_result data ticker =
     (case data ticker of
        None \<Rightarrow> Failed (KeyError ticker)
      | Some stock \<Rightarrow>
          (case info stock of
             Inl e \<Rightarrow> Failed e
           | Inr meta \<Rightarrow>
               (case history stock of
                  Inl e \<Rightarrow> Failed e
                | Inr h \<Rightarrow>
                    if 200 \<le> length (Date h)
                    then Recorded (recent_hist (compute_indicators ticker meta h))
                    else Skipped)))"

definition window_of :: "result \<Rightarrow> frame option" where
  "window_of r = (case r of Recorded w \<Rightarrow> Some w | _ \<Rightarrow> None)"

definition record_result :: "tickers \<Rightarrow> string \<Rightarrow> (string \<times> frame) list \<Rightarrow> (string \<times> frame) list" where
  "record_result data ticker ad =
     (case ticker_result data ticker of Recorded w \<Rightarrow> AList.update ticker w ad | _ \<Rightarrow> ad)"

text \<open>
  A provider whose behaviour is per identifier: constructing the object for a batch
  succeeds, and what it holds for a ticker of the batch is what \<open>F\<close> holds for it,
  whichever batch the ticker is in.
\<close>

definition serves :: "provider \<Rightarrow> tickers \<Rightarrow> bool" where
  "serves yf_Tickers F =
     (\<forall>batch. \<exists>data. yf_Tickers (join '' '' batch) = Inr data \<and> (\<forall>t \<in> set batch. data t = F t))"

subsection \<open>An example provider\<close>

text \<open>
  Four tickers: two with 200 bars, one listed ten days ago, one whose history cannot be
  fetched. Every other symbol is unknown.
\<close>

definition short_hist :: hist where
  "short_hist = synthetic 10 (\<lambda>i. 21) (\<lambda>i. 19) (\<lambda>i. 20)"

definition demo_tickers :: tickers where
  "demo_tickers =
     [''AAA'' \<mapsto> \<lparr>info = Inr [''sector'' \<mapsto> ''Energy''], history = Inr ramp_hist\<rparr>,
      ''BAD'' \<mapsto> \<lparr>info = Inr Map.empty, history = Inl (OtherError ''timed out'')\<rparr>,
      ''CCC'' \<mapsto> \<lparr>info = Inr Map.empty, history = Inr flat_hist\<rparr>,
      ''NEW'' \<mapsto> \<lparr>info = Inr Map.empty, history = Inr short_hist\<rparr>]"

definition demo_provider :: provider where
  "demo_provider names = Inr demo_tickers"

section \<open>The stochastic oscillator in rounded arithmetic\<close>

text \<open>
  The bound on \<open>%K\<close> is sensitive to the rounding of the 64-bit floats, so lines 67
  to 69 are also modelled with a rounding function \<open>rnd\<close> applied to the result of
  every element-wise operation: the two subtractions, the product with 100 and the
  quotient. Rolling minimum and maximum select an entry and do not round. With the
  identity for \<open>rnd\<close> this is \<open>stoch_k\<close>. The mean of \<open>%D\<close> is kept exact: how pandas
  rounds inside its rolling sums is not modelled.
\<close>

definition fround :: "(real \<Rightarrow> real) \<Rightarrow> fval \<Rightarrow> fval" where
  "fround rnd x = (case x of Num r \<Rightarrow> Num (rnd r) | _ \<Rightarrow> x)"

definition stoch_k_with :: "(real \<Rightarrow> real) \<Rightarrow> hist \<Rightarrow> fval list" where
  "stoch_k_with rnd h =
     (let low_14 = rolling_min 14 (Low h);
          high_14 = rolling_max 14 (High h);
          above_low = map (fround rnd) (s_sub (Close h) low_14);
          scaled = map (fround rnd) (map (fmul (Num 100)) above_low);
          spread = map (fround rnd) (s_sub high_14 low_14)
      in map (fround rnd) (s_div scaled spread))"

definition stoch_d_with :: "(real \<Rightarrow> real) \<Rightarrow> hist \<Rightarrow> fval list" where
  "stoch_d_with rnd h = rolling_mean 3 (stoch_k_with rnd h)"

text \<open>
  What is asked of a rounding function with unit roundoff \<open>u\<close>, on the non-negative
  numbers: zero is kept, rounding is monotone, and it adds at most the relative error
  \<open>u\<close>. The identity is one with \<open>u = 0\<close>.
\<close>

definition rounding :: "real \<Rightarrow> (real \<Rightarrow> real) \<Rightarrow> bool" where
  "rounding u rnd =
     (0 \<le> u \<and> rnd 0 = 0 \<and> (\<forall>x y. 0 \<le> x \<and> x \<le> y \<longrightarrow> rnd x \<le> rnd y) \<and>
      (\<forall>x. 0 \<le> x \<longrightarrow> rnd x \<le> x * (1 + u)))"

text \<open>
  Rounding to the nearest binary64 number, ties to even: a non-zero \<open>x\<close> with
  \<open>2\<^sup>e \<le> |x| < 2\<^sup>e\<^sup>+\<^sup>1\<close> is rounded to the nearest multiple of \<open>2\<^sup>e\<^sup>-\<^sup>5\<^sup>2\<close>. The exponent
  is unbounded: overflow and underflow are not modelled.
\<close>

definition round_even :: "real \<Rightarrow> int" where
  "round_even t =
     (let f = \<lfloor>t\<rfloor>; d = t - of_int f
      in if d < 1 / 2 then f else if 1 / 2 < d then f + 1 else if even f then f else f + 1)"

definition round64 :: "real \<Rightarrow> real" where
  "round64 x =
     (if x = 0 then 0
      else let s = 2 powr (of_int \<lfloor>log 2 \<bar>x\<bar>\<rfloor> - 52)
           in of_int (round_even (x / s)) * s)"

text \<open>
  200 equal bars with low 10 and high and close \<open>10 + 5783454194125835 / 2\<^sup>4\<^sup>7\<close>
  (about 51.0939); both prices are binary64 numbers, and so is their difference.
\<close>

definition ulp_hist :: hist where
  "ulp_hist =
     synthetic 200 (\<lambda>i. 10 + 5783454194125835 / 2 ^ 47) (\<lambda>i. 10)
       (\<lambda>i. 10 + 5783454194125835 / 2 ^ 47)"

section \<open>Properties of the operations\<close>

lemma is_num_iff: "is_num x \<longleftrightarrow> (\<exists>r. x = Num r)"
  by (cases x) (simp_all add: is_num_def)

lemma all_num_nth: "all_num xs \<Longrightarrow> i < length xs \<Longrightarrow> \<exists>r. xs ! i = Num r"
  by (simp add: all_num_def list_all_length is_num_iff)

lemma all_numI: "(\<And>i. i < length xs \<Longrightarrow> \<exists>r. xs ! i = Num r) \<Longrightarrow> all_num xs"
  by (simp add: all_num_def list_all_length is_num_iff)

lemma fadd_NaN_right [simp]: "fadd x NaN = NaN"
  by (cases x) simp_all

lemma fmul_NaN_right [simp]: "fmul x NaN = NaN"
  by (cases x) simp_all

lemma fdiv_NaN_right [simp]: "fdiv x NaN = NaN"
  by (cases x) simp_all

lemma fsub_NaN [simp]: "fsub x NaN = NaN" "fsub NaN y = NaN"
  by (simp_all add: fsub_def)

lemma leading_undefined_eq:
  assumes "k < length ys" and "\<And>i. i < k \<Longrightarrow> ys ! i = NaN" and "ys ! k \<noteq> NaN"
  shows "leading_undefined ys = k"
proof -
  have "takeWhile isna ys = take k ys"
    using assms by (intro takeWhile_eq_take_P_nth) (simp_all add: isna_def)
  then show ?thesis using assms(1) by (simp add: leading_undefined_def)
qed

lemma leading_undefined_ge:
  assumes "k \<le> length ys" and "\<And>i. i < k \<Longrightarrow> ys ! i = NaN"
  shows "k \<le> leading_undefined ys"
proof -
  have "takeWhile isna (take k ys @ drop k ys) = take k ys @ takeWhile isna (drop k ys)"
    using assms by (intro takeWhile_append2) (auto simp: isna_def in_set_conv_nth)
  then have "length (takeWhile isna ys) = k + length (takeWhile isna (drop k ys))"
    using assms(1) by simp
  then show ?thesis by (simp add: leading_undefined_def)
qed

lemma length_s_add [simp]: "length (s_add xs ys) = min (length xs) (length ys)"
  by (simp add: s_add_def)
lemma length_s_sub [simp]: "length (s_sub xs ys) = min (length xs) (length ys)"
  by (simp add: s_sub_def)
lemma length_s_div [simp]: "length (s_div xs ys) = min (length xs) (length ys)"
  by (simp add: s_div_def)
lemma length_s_neg [simp]: "length (s_neg xs) = length xs"
  by (simp add: s_neg_def)
lemma length_s_abs [simp]: "length (s_abs xs) = length xs"
  by (simp add: s_abs_def)
lemma length_s_where [simp]: "length (s_where c v xs) = length xs"
  by (simp add: s_where_def)
lemma length_diff [simp]: "length (diff xs) = length xs"
  by (cases xs) (simp_all add: diff_def)
lemma length_shift [simp]: "length (shift xs) = length xs"
  by (cases xs) (simp_all add: shift_def)
lemma length_row_max3 [simp]:
  "length (row_max3 xs ys zs) = min (length xs) (min (length ys) (length zs))"
  by (simp add: row_max3_def)
lemma length_rolling [simp]: "length (rolling w agg xs) = length xs"
  by (simp add: rolling_def)
lemma length_rolling_mean [simp]: "length (rolling_mean w xs) = length xs"
  by (simp add: rolling_mean_def)
lemma length_rolling_std [simp]: "length (rolling_std w xs) = length xs"
  by (simp add: rolling_std_def)
lemma length_rolling_min [simp]: "length (rolling_min w xs) = length xs"
  by (simp add: rolling_min_def)
lemma length_rolling_max [simp]: "length (rolling_max w xs) = length xs"
  by (simp add: rolling_max_def)
lemma length_ewm_scan [simp]: "length (ewm_scan a adj st xs) = length xs"
  by (induction xs arbitrary: st) (simp_all add: Let_def)
lemma length_ewm_mean [simp]: "length (ewm_mean n adj xs) = length xs"
  by (cases xs) (simp_all add: ewm_mean_def)

lemma s_sub_nth: "i < length xs \<Longrightarrow> i < length ys \<Longrightarrow> s_sub xs ys ! i = fsub (xs ! i) (ys ! i)"
  by (simp add: s_sub_def)
lemma s_add_nth: "i < length xs \<Longrightarrow> i < length ys \<Longrightarrow> s_add xs ys ! i = fadd (xs ! i) (ys ! i)"
  by (simp add: s_add_def)
lemma s_div_nth: "i < length xs \<Longrightarrow> i < length ys \<Longrightarrow> s_div xs ys ! i = fdiv (xs ! i) (ys ! i)"
  by (simp add: s_div_def)

lemma diff_nth_0: "xs \<noteq> [] \<Longrightarrow> diff xs ! 0 = NaN"
  by (cases xs) (simp_all add: diff_def)
lemma diff_nth_Suc: "Suc i < length xs \<Longrightarrow> diff xs ! Suc i = fsub (xs ! Suc i) (xs ! i)"
  by (cases xs) (simp_all add: diff_def)
lemma shift_nth_0: "xs \<noteq> [] \<Longrightarrow> shift xs ! 0 = NaN"
  by (cases xs) (simp_all add: shift_def)
lemma shift_nth_Suc:
  assumes "Suc i < length xs"
  shows "shift xs ! Suc i = xs ! i"
proof -
  have "shift xs = NaN # butlast xs"
    using assms by (cases xs) (simp_all add: shift_def)
  then show ?thesis
    using assms by (simp add: nth_butlast)
qed

lemma length_observations_le: "length (observations xs) \<le> length xs"
  by (induction xs rule: observations.induct) simp_all

lemma length_window: "i < length xs \<Longrightarrow> length (window w xs i) = min (Suc i) w"
  by (auto simp: window_def)

lemma rolling_nth:
  "i < length xs \<Longrightarrow> rolling w agg xs ! i =
     (let obs = observations (window w xs i) in if w \<le> length obs then agg obs else NaN)"
  by (simp add: rolling_def)

lemma rolling_warmup: "i < length xs \<Longrightarrow> Suc i < w \<Longrightarrow> rolling w agg xs ! i = NaN"
  using length_observations_le [of "window w xs i"]
  by (simp add: rolling_nth length_window Let_def)

lemma observations_all_num: "all_num xs \<Longrightarrow> length (observations xs) = length xs"
  by (induction xs rule: observations.induct) (simp_all add: all_num_def is_num_def)

lemma all_num_window: "all_num xs \<Longrightarrow> all_num (window w xs i)"
  unfolding all_num_def window_def list_all_iff
  by (meson in_set_dropD in_set_takeD)

lemma rolling_full:
  "all_num xs \<Longrightarrow> i < length xs \<Longrightarrow> w \<le> Suc i \<Longrightarrow>
     rolling w agg xs ! i = agg (observations (window w xs i))"
  by (simp add: rolling_nth Let_def observations_all_num all_num_window length_window)

lemma take_conv_map_nth: "n \<le> length xs \<Longrightarrow> take n xs = map ((!) xs) [0..<n]"
  by (simp add: list_eq_iff_nth_eq)

lemma window_conv_map:
  assumes "i < length xs"
  shows "window w xs i = map ((!) xs) [Suc i - w..<Suc i]"
proof -
  have "take (Suc i) xs = map ((!) xs) [0..<Suc i]"
    using assms by (intro take_conv_map_nth) simp
  then show ?thesis
    by (simp add: window_def drop_map del: upt_Suc)
qed

lemma observations_map_Num [simp]: "observations (map (\<lambda>j. Num (f j)) js) = map f js"
  by (induction js) simp_all

lemma window_num:
  assumes "i < length xs" and "\<And>j. Suc i - w \<le> j \<Longrightarrow> j \<le> i \<Longrightarrow> xs ! j = Num (f j)"
  shows "window w xs i = map (\<lambda>j. Num (f j)) [Suc i - w..<Suc i]"
  using assms by (simp add: window_conv_map del: upt_Suc)

lemma rolling_nth_num:
  assumes "i < length xs" and "w \<le> Suc i"
    and "\<And>j. Suc i - w \<le> j \<Longrightarrow> j \<le> i \<Longrightarrow> xs ! j = Num (f j)"
  shows "rolling w agg xs ! i = agg (map f [Suc i - w..<Suc i])"
  using assms(1,2) by (simp add: rolling_nth window_num [OF assms(1,3)] Let_def del: upt_Suc)

lemma observations_shorter:
  "x \<in> set xs \<Longrightarrow> (\<And>r. x \<noteq> Num r) \<Longrightarrow> length (observations xs) < length xs"
proof (induction xs)
  case Nil
  then show ?case by simp
next
  case (Cons y ys)
  have le: "length (observations ys) \<le> length ys"
    by (rule length_observations_le)
  show ?case
  proof (cases y)
    case (Num r)
    then show ?thesis using Cons by auto
  qed (use le in simp_all)
qed

lemma rolling_nth_undefined:
  assumes "i < length xs" and "Suc i - w \<le> j" and "j \<le> i" and "\<And>r. xs ! j \<noteq> Num r"
  shows "rolling w agg xs ! i = NaN"
proof -
  have "xs ! j \<in> set (window w xs i)"
    using assms(1-3) by (simp add: window_conv_map del: upt_Suc)
  then have "length (observations (window w xs i)) < length (window w xs i)"
    using assms(4) by (rule observations_shorter)
  then show ?thesis
    using assms(1) by (simp add: rolling_nth length_window Let_def)
qed

lemma rsi_formula_undefined:
  "fsub (Num 100) (fdiv (Num 100) (fadd (Num 1) r)) = NaN \<longleftrightarrow> r = NaN"
  by (cases r) (simp_all add: fsub_def inf_of_sign_def)

lemma rsi_formula_inf:
  "r = PInf \<or> r = NInf \<Longrightarrow> fsub (Num 100) (fdiv (Num 100) (fadd (Num 1) r)) = Num 100"
  by (auto simp: fsub_def)

lemma gain_nth_0: "close \<noteq> [] \<Longrightarrow> gain close ! 0 = Num 0"
  by (simp add: gain_def s_where_def diff_nth_0 length_greater_0_conv [symmetric] del: length_greater_0_conv)

lemma loss_nth_0: "close \<noteq> [] \<Longrightarrow> loss close ! 0 = Num 0"
  by (simp add: loss_def s_where_def s_neg_def diff_nth_0 length_greater_0_conv [symmetric] del: length_greater_0_conv)

lemma gain_nth_Suc:
  assumes "Suc j < length close" and "close ! j = Num a" and "close ! Suc j = Num b"
  shows "gain close ! Suc j = Num (max 0 (b - a))"
  using assms by (simp add: gain_def s_where_def diff_nth_Suc fsub_def max_def)

lemma loss_nth_Suc:
  assumes "Suc j < length close" and "close ! j = Num a" and "close ! Suc j = Num b"
  shows "loss close ! Suc j = Num (max 0 (a - b))"
  using assms by (simp add: loss_def s_where_def s_neg_def diff_nth_Suc fsub_def max_def)

lemma all_num_the_num: "all_num xs \<Longrightarrow> i < length xs \<Longrightarrow> xs ! i = Num (the_num (xs ! i))"
  using all_num_nth [of xs i] by auto

lemma rolling_all_num:
  assumes "all_num xs" and "i < length xs" and "w \<le> Suc i"
  shows "rolling w agg xs ! i = agg (map (\<lambda>j. the_num (xs ! j)) [Suc i - w..<Suc i])"
proof (rule rolling_nth_num)
  show "xs ! j = Num (the_num (xs ! j))" if "j \<le> i" for j
    using assms that by (intro all_num_the_num) simp_all
qed (use assms in simp_all)

lemma rolling_nth_cases:
  assumes "i < length xs" and "rolling w agg xs ! i \<noteq> NaN"
  shows "w \<le> Suc i"
    and "\<And>j. Suc i - w \<le> j \<Longrightarrow> j \<le> i \<Longrightarrow> xs ! j = Num (the_num (xs ! j))"
    and "rolling w agg xs ! i = agg (map (\<lambda>j. the_num (xs ! j)) [Suc i - w..<Suc i])"
proof -
  show w: "w \<le> Suc i"
    using assms rolling_warmup [of i xs w agg] by (cases "Suc i < w") simp_all
  show num: "xs ! j = Num (the_num (xs ! j))" if "Suc i - w \<le> j" "j \<le> i" for j
  proof (cases "xs ! j")
    case (Num r)
    then show ?thesis by simp
  qed (use assms that rolling_nth_undefined [of i xs w j agg] in simp_all)
  show "rolling w agg xs ! i = agg (map (\<lambda>j. the_num (xs ! j)) [Suc i - w..<Suc i])"
    using assms(1) w by (intro rolling_nth_num num) simp_all
qed

lemma leading_undefined_rolling:
  assumes "all_num xs" and "0 < w" and "w \<le> length xs"
    and "\<And>obs. length obs = w \<Longrightarrow> agg obs \<noteq> NaN"
  shows "leading_undefined (rolling w agg xs) = w - 1"
proof (rule leading_undefined_eq)
  show "w - 1 < length (rolling w agg xs)" using assms by simp
  show "rolling w agg xs ! i = NaN" if "i < w - 1" for i
    using that assms by (intro rolling_warmup) simp_all
  have "rolling w agg xs ! (w - 1) =
          agg (map (\<lambda>j. the_num (xs ! j)) [Suc (w - 1) - w..<Suc (w - 1)])"
    using assms by (intro rolling_all_num) simp_all
  then show "rolling w agg xs ! (w - 1) \<noteq> NaN"
    using assms by simp
qed

lemma mean_defined: "mean obs \<noteq> NaN"
  by (simp add: mean_def)

lemma std_defined: "1 < length obs \<Longrightarrow> std obs \<noteq> NaN"
  by (simp add: std_def Let_def)

lemma leading_undefined_rolling_mean:
  "all_num xs \<Longrightarrow> 0 < w \<Longrightarrow> w \<le> length xs \<Longrightarrow> leading_undefined (rolling_mean w xs) = w - 1"
  unfolding rolling_mean_def by (rule leading_undefined_rolling) (simp_all add: mean_defined)

lemma rolling_mean_all_num:
  assumes "all_num xs" and "i < length xs" and "w \<le> Suc i"
  shows "\<exists>r. rolling_mean w xs ! i = Num r"
  using rolling_all_num [OF assms, of mean] by (simp add: rolling_mean_def mean_def)

lemma rolling_std_all_num:
  assumes "all_num xs" and "i < length xs" and "w \<le> Suc i" and "1 < w"
  shows "\<exists>r. rolling_std w xs ! i = Num r"
  using rolling_all_num [OF assms(1-3), of std] assms by (simp add: rolling_std_def std_def Let_def)

lemma bb_warmup:
  assumes "i < length close" and "i < 19"
  shows "bb_upper close ! i = NaN" and "bb_lower close ! i = NaN"
  using assms rolling_warmup [of i close 20 mean]
  by (simp_all add: bb_upper_def bb_lower_def s_add_nth s_sub_nth rolling_mean_def fsub_def)

lemma bb_defined:
  assumes "all_num close" and "i < length close" and "19 \<le> i"
  shows "bb_upper close ! i \<noteq> NaN" and "bb_lower close ! i \<noteq> NaN"
proof -
  obtain m where m: "rolling_mean 20 close ! i = Num m"
    using rolling_mean_all_num [of close i 20] assms by auto
  obtain s where s: "rolling_std 20 close ! i = Num s"
    using rolling_std_all_num [of close i 20] assms by auto
  show "bb_upper close ! i \<noteq> NaN" "bb_lower close ! i \<noteq> NaN"
    using assms m s by (simp_all add: bb_upper_def bb_lower_def s_add_nth s_sub_nth fsub_def)
qed

lemma leading_undefined_bb:
  assumes "all_num close" and "20 \<le> length close"
  shows "leading_undefined (bb_upper close) = 19" and "leading_undefined (bb_lower close) = 19"
proof -
  have len: "length (bb_upper close) = length close" "length (bb_lower close) = length close"
    by (simp_all add: bb_upper_def bb_lower_def)
  show "leading_undefined (bb_upper close) = 19"
    using assms bb_warmup(1) [of _ close] bb_defined(1) [of close 19]
    by (intro leading_undefined_eq) (simp_all add: len)
  show "leading_undefined (bb_lower close) = 19"
    using assms bb_warmup(2) [of _ close] bb_defined(2) [of close 19]
    by (intro leading_undefined_eq) (simp_all add: len)
qed

lemma gain_nth_num:
  assumes "i < length close" and "\<And>j. i - 1 \<le> j \<Longrightarrow> j \<le> i \<Longrightarrow> close ! j = Num (c j)"
  shows "gain close ! i = Num (up_move c i)"
proof (cases i)
  case 0
  then show ?thesis using assms(1) gain_nth_0 [of close] by (auto simp: up_move_def)
next
  case (Suc k)
  then show ?thesis
    using assms(1) assms(2) [of k] assms(2) [of i] gain_nth_Suc [of k close "c k" "c i"]
    by (simp add: up_move_def)
qed

lemma loss_nth_num:
  assumes "i < length close" and "\<And>j. i - 1 \<le> j \<Longrightarrow> j \<le> i \<Longrightarrow> close ! j = Num (c j)"
  shows "loss close ! i = Num (down_move c i)"
proof (cases i)
  case 0
  then show ?thesis using assms(1) loss_nth_0 [of close] by (auto simp: down_move_def)
next
  case (Suc k)
  then show ?thesis
    using assms(1) assms(2) [of k] assms(2) [of i] loss_nth_Suc [of k close "c k" "c i"]
    by (simp add: down_move_def)
qed

lemma length_gain [simp]: "length (gain close) = length close"
  by (simp add: gain_def)

lemma length_loss [simp]: "length (loss close) = length close"
  by (simp add: loss_def)

lemma length_rsi [simp]: "length (rsi close) = length close"
  by (simp add: rsi_def Let_def)

lemma rsi_nth:
  "i < length close \<Longrightarrow>
   rsi close ! i =
     fsub (Num 100) (fdiv (Num 100) (fadd (Num 1)
       (fdiv (rolling_mean 14 (gain close) ! i) (rolling_mean 14 (loss close) ! i))))"
  by (simp add: rsi_def Let_def s_div_nth)

lemma rsi_warmup: "i < length close \<Longrightarrow> i < 13 \<Longrightarrow> rsi close ! i = NaN"
  using rolling_warmup [of i "gain close" 14 mean]
  by (simp add: rsi_nth rolling_mean_def fsub_def)

lemma avg_gain_num:
  assumes "i < length close" and "13 \<le> i"
    and "\<And>j. i - 14 \<le> j \<Longrightarrow> j \<le> i \<Longrightarrow> close ! j = Num (c j)"
  shows "rolling_mean 14 (gain close) ! i = Num (sum_list (map (up_move c) [i - 13..<Suc i]) / 14)"
proof -
  have "rolling 14 mean (gain close) ! i = mean (map (up_move c) [Suc i - 14..<Suc i])"
  proof (rule rolling_nth_num)
    show "gain close ! j = Num (up_move c j)" if "Suc i - 14 \<le> j" "j \<le> i" for j
      using that assms(1) by (intro gain_nth_num assms(3)) simp_all
  qed (use assms in simp_all)
  then show ?thesis
    using assms(2) by (simp add: rolling_mean_def mean_def del: upt_Suc)
qed

lemma avg_loss_num:
  assumes "i < length close" and "13 \<le> i"
    and "\<And>j. i - 14 \<le> j \<Longrightarrow> j \<le> i \<Longrightarrow> close ! j = Num (c j)"
  shows "rolling_mean 14 (loss close) ! i = Num (sum_list (map (down_move c) [i - 13..<Suc i]) / 14)"
proof -
  have "rolling 14 mean (loss close) ! i = mean (map (down_move c) [Suc i - 14..<Suc i])"
  proof (rule rolling_nth_num)
    show "loss close ! j = Num (down_move c j)" if "Suc i - 14 \<le> j" "j \<le> i" for j
      using that assms(1) by (intro loss_nth_num assms(3)) simp_all
  qed (use assms in simp_all)
  then show ?thesis
    using assms(2) by (simp add: rolling_mean_def mean_def del: upt_Suc)
qed

lemma up_move_nonneg: "0 \<le> up_move c j"
  by (simp add: up_move_def)

lemma down_move_nonneg: "0 \<le> down_move c j"
  by (simp add: down_move_def)

lemma sum_moves_nonneg:
  "0 \<le> sum_list (map (up_move c) js)" "0 \<le> sum_list (map (down_move c) js)"
  by (auto intro!: sum_list_nonneg simp: up_move_nonneg down_move_nonneg)

lemma sum_up_zero_iff: "sum_list (map (up_move c) js) = 0 \<longleftrightarrow> (\<forall>j \<in> set js. up_move c j = 0)"
  by (subst sum_list_nonneg_eq_0_iff) (auto simp: up_move_nonneg)

lemma sum_down_zero_iff: "sum_list (map (down_move c) js) = 0 \<longleftrightarrow> (\<forall>j \<in> set js. down_move c j = 0)"
  by (subst sum_list_nonneg_eq_0_iff) (auto simp: down_move_nonneg)

lemma rsi_saturates:
  assumes "i < length close" and "13 \<le> i"
    and num: "\<And>j. i - 14 \<le> j \<Longrightarrow> j \<le> i \<Longrightarrow> close ! j = Num (c j)"
    and mono: "\<And>j. i - 14 \<le> j \<Longrightarrow> j < i \<Longrightarrow> c j \<le> c (Suc j)"
    and rise: "i - 14 \<le> k" "k < i" "c k < c (Suc k)"
  shows "rsi close ! i = Num 100"
proof -
  let ?G = "sum_list (map (up_move c) [i - 13..<Suc i])"
  let ?L = "sum_list (map (down_move c) [i - 13..<Suc i])"
  have "down_move c j = 0" if "j \<in> set [i - 13..<Suc i]" for j
  proof (cases j)
    case (Suc m)
    then have "i - 14 \<le> m" "m < i" using that by auto
    then show ?thesis using Suc mono [of m] by (simp add: down_move_def)
  qed (simp add: down_move_def)
  then have L: "?L = 0"
    by (simp add: sum_down_zero_iff del: upt_Suc)
  have "Suc k \<in> set [i - 13..<Suc i]" using rise(1,2) by auto
  moreover have "up_move c (Suc k) \<noteq> 0" using rise(3) by (simp add: up_move_def)
  ultimately have "?G \<noteq> 0"
    unfolding sum_up_zero_iff by blast
  then have G: "0 < ?G"
    using sum_moves_nonneg(1) [of c "[i - 13..<Suc i]"] by simp
  have "fdiv (rolling_mean 14 (gain close) ! i) (rolling_mean 14 (loss close) ! i) = PInf"
    using G by (simp add: avg_gain_num [OF assms(1,2) num] avg_loss_num [OF assms(1,2) num] L
        inf_of_sign_def del: upt_Suc)
  then show ?thesis
    using assms(1) by (simp add: rsi_nth fsub_def)
qed

lemma rsi_flat:
  assumes "i < length close" and "13 \<le> i"
    and num: "\<And>j. i - 14 \<le> j \<Longrightarrow> j \<le> i \<Longrightarrow> close ! j = Num (c j)"
    and flat: "\<And>j. i - 14 \<le> j \<Longrightarrow> j < i \<Longrightarrow> c j = c (Suc j)"
  shows "rsi close ! i = NaN"
proof -
  have "down_move c j = 0 \<and> up_move c j = 0" if "j \<in> set [i - 13..<Suc i]" for j
  proof (cases j)
    case (Suc m)
    then have "i - 14 \<le> m" "m < i" using that by auto
    then show ?thesis using Suc flat [of m] by (simp add: down_move_def up_move_def)
  qed (simp add: down_move_def up_move_def)
  then have "sum_list (map (down_move c) [i - 13..<Suc i]) = 0"
    and "sum_list (map (up_move c) [i - 13..<Suc i]) = 0"
    by (simp_all add: sum_down_zero_iff sum_up_zero_iff del: upt_Suc)
  then have "fdiv (rolling_mean 14 (gain close) ! i) (rolling_mean 14 (loss close) ! i) = NaN"
    by (simp add: avg_gain_num [OF assms(1,2) num] avg_loss_num [OF assms(1,2) num] del: upt_Suc)
  then show ?thesis
    using assms(1) by (simp add: rsi_nth fsub_def)
qed

lemma rsi_defined:
  assumes "i < length close" and "13 \<le> i"
    and num: "\<And>j. i - 14 \<le> j \<Longrightarrow> j \<le> i \<Longrightarrow> close ! j = Num (c j)"
    and move: "i - 14 \<le> k" "k < i" "c k \<noteq> c (Suc k)"
  shows "rsi close ! i \<noteq> NaN"
proof -
  let ?G = "sum_list (map (up_move c) [i - 13..<Suc i])"
  let ?L = "sum_list (map (down_move c) [i - 13..<Suc i])"
  have mem: "Suc k \<in> set [i - 13..<Suc i]" using move(1,2) by auto
  have "up_move c (Suc k) \<noteq> 0 \<or> down_move c (Suc k) \<noteq> 0"
    using move(3) by (auto simp: up_move_def down_move_def max_def)
  then have "?G \<noteq> 0 \<or> ?L \<noteq> 0"
    unfolding sum_up_zero_iff sum_down_zero_iff using mem by blast
  then have "fdiv (rolling_mean 14 (gain close) ! i) (rolling_mean 14 (loss close) ! i) \<noteq> NaN"
    by (auto simp: avg_gain_num [OF assms(1,2) num] avg_loss_num [OF assms(1,2) num]
        inf_of_sign_def simp del: upt_Suc)
  then show ?thesis
    using assms(1) by (simp add: rsi_nth rsi_formula_undefined)
qed

lemma min_of_le: "x \<in> set xs \<Longrightarrow> min_of xs \<le> x"
  by (induction xs rule: min_of.induct) auto

lemma max_of_ge: "x \<in> set xs \<Longrightarrow> x \<le> max_of xs"
  by (induction xs rule: max_of.induct) auto

lemma length_stoch_k: "wf_hist h \<Longrightarrow> length (stoch_k h) = length (Date h)"
  by (simp add: stoch_k_def Let_def wf_hist_def)

lemma stoch_k_nth:
  "wf_hist h \<Longrightarrow> i < length (Date h) \<Longrightarrow>
   stoch_k h ! i =
     fdiv (fmul (Num 100) (fsub (Close h ! i) (rolling_min 14 (Low h) ! i)))
       (fsub (rolling_max 14 (High h) ! i) (rolling_min 14 (Low h) ! i))"
  by (simp add: stoch_k_def Let_def wf_hist_def s_div_nth s_sub_nth)

lemma stoch_k_warmup:
  "wf_hist h \<Longrightarrow> i < length (Date h) \<Longrightarrow> i < 13 \<Longrightarrow> stoch_k h ! i = NaN"
  using rolling_warmup [of i "Low h" 14 "\<lambda>obs. Num (min_of obs)"]
  by (simp add: stoch_k_nth rolling_min_def wf_hist_def fsub_def)

lemma stoch_k_zero_range:
  assumes "wf_hist h" and "i < length (Date h)"
    and "rolling_max 14 (High h) ! i = Num a" and "rolling_min 14 (Low h) ! i = Num a"
  shows "stoch_k h ! i = (case Close h ! i of
           NaN \<Rightarrow> NaN
         | Num c \<Rightarrow> if c = a then NaN else inf_of_sign (a < c)
         | PInf \<Rightarrow> PInf
         | NInf \<Rightarrow> NInf)"
  using assms by (cases "Close h ! i") (simp_all add: stoch_k_nth fsub_def inf_of_sign_def)

lemma rolling_min_le:
  assumes "i < length xs" and "rolling_min 14 xs ! i = Num a"
  shows "\<exists>r. xs ! i = Num r \<and> a \<le> r"
proof -
  have ne: "rolling 14 (\<lambda>obs. Num (min_of obs)) xs ! i \<noteq> NaN"
    using assms(2) by (simp add: rolling_min_def)
  note c = rolling_nth_cases [OF assms(1) ne]
  have "the_num (xs ! i) \<in> set (map (\<lambda>j. the_num (xs ! j)) [Suc i - 14..<Suc i])"
    by auto
  then have "min_of (map (\<lambda>j. the_num (xs ! j)) [Suc i - 14..<Suc i]) \<le> the_num (xs ! i)"
    by (rule min_of_le)
  moreover have "a = min_of (map (\<lambda>j. the_num (xs ! j)) [Suc i - 14..<Suc i])"
    using c(3) assms(2) by (simp add: rolling_min_def del: upt_Suc)
  ultimately show ?thesis
    using c(2) [of i] by auto
qed

lemma rolling_max_ge:
  assumes "i < length xs" and "rolling_max 14 xs ! i = Num a"
  shows "\<exists>r. xs ! i = Num r \<and> r \<le> a"
proof -
  have ne: "rolling 14 (\<lambda>obs. Num (max_of obs)) xs ! i \<noteq> NaN"
    using assms(2) by (simp add: rolling_max_def)
  note c = rolling_nth_cases [OF assms(1) ne]
  have "the_num (xs ! i) \<in> set (map (\<lambda>j. the_num (xs ! j)) [Suc i - 14..<Suc i])"
    by auto
  then have "the_num (xs ! i) \<le> max_of (map (\<lambda>j. the_num (xs ! j)) [Suc i - 14..<Suc i])"
    by (rule max_of_ge)
  moreover have "a = max_of (map (\<lambda>j. the_num (xs ! j)) [Suc i - 14..<Suc i])"
    using c(3) assms(2) by (simp add: rolling_max_def del: upt_Suc)
  ultimately show ?thesis
    using c(2) [of i] by auto
qed

lemma rolling_min_max_cases:
  assumes "i < length xs"
  shows "rolling_min 14 xs ! i = NaN \<or> (\<exists>r. rolling_min 14 xs ! i = Num r)"
    and "rolling_max 14 xs ! i = NaN \<or> (\<exists>r. rolling_max 14 xs ! i = Num r)"
  using assms by (simp_all add: rolling_min_def rolling_max_def rolling_nth Let_def)

lemma fle_Num: "fle (Num a) y \<longleftrightarrow> (y = PInf \<or> (\<exists>b. y = Num b \<and> a \<le> b))"
  by (cases y) (auto simp: fle_def)

lemma fle_Num2: "fle x (Num b) \<longleftrightarrow> (x = NInf \<or> (\<exists>a. x = Num a \<and> a \<le> b))"
  by (cases x) (auto simp: fle_def)

lemma stoch_k_bounds:
  assumes wf: "wf_hist h" and i: "i < length (Date h)"
    and lo: "fle (Low h ! i) (Close h ! i)" and hi: "fle (Close h ! i) (High h ! i)"
    and v: "stoch_k h ! i = Num v"
  shows "0 \<le> v \<and> v \<le> 100"
proof -
  have len: "i < length (Low h)" "i < length (High h)"
    using wf i by (simp_all add: wf_hist_def)
  let ?L = "rolling_min 14 (Low h) ! i" and ?H = "rolling_max 14 (High h) ! i"
  have eq: "fdiv (fmul (Num 100) (fsub (Close h ! i) ?L)) (fsub ?H ?L) = Num v"
    using v by (simp add: stoch_k_nth [OF wf i])
  from rolling_min_max_cases(1) [OF len(1)] obtain l where l: "?L = Num l"
    using eq by auto
  from rolling_min_max_cases(2) [OF len(2)] obtain u where u: "?H = Num u"
    using eq l by (auto simp: fsub_def)
  from rolling_min_le [OF len(1) l] obtain lo_i where lo_i: "Low h ! i = Num lo_i" "l \<le> lo_i"
    by auto
  from rolling_max_ge [OF len(2) u] obtain hi_i where hi_i: "High h ! i = Num hi_i" "hi_i \<le> u"
    by auto
  from hi hi_i lo lo_i obtain c where c: "Close h ! i = Num c" "lo_i \<le> c" "c \<le> hi_i"
    by (auto simp: fle_Num fle_Num2)
  have ne: "u - l \<noteq> 0" and veq: "v = 100 * (c - l) / (u - l)"
    using eq l u c by (auto simp: fsub_def inf_of_sign_def split: if_splits)
  have pos: "0 < u - l" and cl: "0 \<le> c - l" and cu: "c - l \<le> u - l"
    using ne lo_i hi_i c by linarith+
  have "0 \<le> v" unfolding veq using pos cl by simp
  moreover have "v \<le> 100" unfolding veq using pos cu
    by (simp add: pos_divide_le_eq)
  ultimately show ?thesis by simp
qed

lemma sum_list_bounds:
  fixes xs :: "real list"
  assumes "\<And>x. x \<in> set xs \<Longrightarrow> a \<le> x \<and> x \<le> b"
  shows "real (length xs) * a \<le> sum_list xs \<and> sum_list xs \<le> real (length xs) * b"
  using assms
proof (induction xs)
  case (Cons x xs)
  then have "a \<le> x \<and> x \<le> b"
    and "real (length xs) * a \<le> sum_list xs \<and> sum_list xs \<le> real (length xs) * b"
    by simp_all
  then show ?case by (simp add: algebra_simps)
qed simp

lemma length_stoch_d: "wf_hist h \<Longrightarrow> length (stoch_d h) = length (Date h)"
  by (simp add: stoch_d_def length_stoch_k)

lemma stoch_d_warmup:
  assumes "wf_hist h" and "i < length (Date h)" and "i < 15"
  shows "stoch_d h ! i = NaN"
proof (cases "i < 2")
  case True
  then show ?thesis
    using assms rolling_warmup [of i "stoch_k h" 3 mean]
    by (simp add: stoch_d_def rolling_mean_def length_stoch_k)
next
  case False
  have "stoch_k h ! (i - 2) = NaN"
    using assms by (intro stoch_k_warmup) simp_all
  then have "rolling 3 mean (stoch_k h) ! i = NaN"
    using assms False
    by (intro rolling_nth_undefined [where j = "i - 2"]) (simp_all add: length_stoch_k)
  then show ?thesis by (simp add: stoch_d_def rolling_mean_def)
qed

lemma stoch_d_bounds:
  assumes wf: "wf_hist h" and i: "i < length (Date h)"
    and bars: "\<And>j. j < length (Date h) \<Longrightarrow> fle (Low h ! j) (Close h ! j) \<and> fle (Close h ! j) (High h ! j)"
    and v: "stoch_d h ! i = Num v"
  shows "0 \<le> v \<and> v \<le> 100"
proof -
  have len: "i < length (stoch_k h)" using wf i by (simp add: length_stoch_k)
  have ne: "rolling 3 mean (stoch_k h) ! i \<noteq> NaN"
    using v by (simp add: stoch_d_def rolling_mean_def)
  note c = rolling_nth_cases [OF len ne]
  let ?vs = "map (\<lambda>j. the_num (stoch_k h ! j)) [Suc i - 3..<Suc i]"
  have "0 \<le> x \<and> x \<le> 100" if "x \<in> set ?vs" for x
  proof -
    from that obtain j where j: "Suc i - 3 \<le> j" "j \<le> i" "x = the_num (stoch_k h ! j)"
      unfolding set_map set_upt by auto
    then have "stoch_k h ! j = Num x" using c(2) [of j] by simp
    moreover have "j < length (Date h)" using j i by simp
    ultimately show ?thesis
      using bars [of j] by (intro stoch_k_bounds [OF wf, of j]) simp_all
  qed
  from sum_list_bounds [of ?vs 0 100, OF this]
  have "0 \<le> sum_list ?vs" "sum_list ?vs \<le> 3 * 100"
    using c(1) by (simp_all del: upt_Suc)
  moreover have "v = sum_list ?vs / 3"
    using c(3) v c(1) by (simp add: stoch_d_def rolling_mean_def mean_def del: upt_Suc)
  ultimately show ?thesis by simp
qed

lemma stoch_k_finite:
  assumes "finite_hist h" and "i < length (Date h)" and "13 \<le> i"
  shows "\<exists>l u c. rolling_min 14 (Low h) ! i = Num l \<and> rolling_max 14 (High h) ! i = Num u \<and>
           Close h ! i = Num c \<and>
           stoch_k h ! i = fdiv (Num (100 * (c - l))) (Num (u - l))"
proof -
  have wf: "wf_hist h" and len: "i < length (Low h)" "i < length (High h)" "i < length (Close h)"
    using assms by (simp_all add: finite_hist_def wf_hist_def)
  have "\<exists>l. rolling_min 14 (Low h) ! i = Num l"
    using assms len rolling_all_num [of "Low h" i 14 "\<lambda>obs. Num (min_of obs)"]
    by (simp add: rolling_min_def finite_hist_def)
  moreover have "\<exists>u. rolling_max 14 (High h) ! i = Num u"
    using assms len rolling_all_num [of "High h" i 14 "\<lambda>obs. Num (max_of obs)"]
    by (simp add: rolling_max_def finite_hist_def)
  moreover have "\<exists>c. Close h ! i = Num c"
    using assms len by (intro all_num_nth) (simp_all add: finite_hist_def)
  ultimately show ?thesis
    using stoch_k_nth [OF wf assms(2)] by (auto simp: fsub_def)
qed

lemma stoch_k_defined:
  assumes "finite_hist h" and "i < length (Date h)" and "13 \<le> i"
    and "rolling_max 14 (High h) ! i \<noteq> rolling_min 14 (Low h) ! i"
  shows "\<exists>r. stoch_k h ! i = Num r"
  using stoch_k_finite [OF assms(1-3)] assms(4) by auto

lemma stoch_d_defined:
  assumes "finite_hist h" and "i < length (Date h)" and "15 \<le> i"
    and "\<And>j. i - 2 \<le> j \<Longrightarrow> j \<le> i \<Longrightarrow> rolling_max 14 (High h) ! j \<noteq> rolling_min 14 (Low h) ! j"
  shows "stoch_d h ! i \<noteq> NaN"
proof -
  have wf: "wf_hist h" using assms(1) by (simp add: finite_hist_def)
  have "rolling 3 mean (stoch_k h) ! i = mean (map (\<lambda>j. the_num (stoch_k h ! j)) [Suc i - 3..<Suc i])"
  proof (rule rolling_nth_num)
    show "stoch_k h ! j = Num (the_num (stoch_k h ! j))" if "Suc i - 3 \<le> j" "j \<le> i" for j
    proof -
      have "\<exists>r. stoch_k h ! j = Num r"
        using that assms by (intro stoch_k_defined) simp_all
      then show ?thesis by auto
    qed
  qed (use assms wf in \<open>simp_all add: length_stoch_k\<close>)
  then show ?thesis by (simp add: stoch_d_def rolling_mean_def mean_def)
qed

lemma length_true_range: "wf_hist h \<Longrightarrow> length (true_range h) = length (Date h)"
  by (simp add: true_range_def Let_def wf_hist_def)

lemma true_range_finite:
  assumes "finite_hist h" and "i < length (Date h)"
  shows "\<exists>r. true_range h ! i = Num r"
proof -
  have len: "i < length (Low h)" "i < length (High h)" "i < length (Close h)"
    using assms by (simp_all add: finite_hist_def wf_hist_def)
  obtain hi lo where hl: "High h ! i = Num hi" "Low h ! i = Num lo"
    using assms len all_num_nth [of "High h" i] all_num_nth [of "Low h" i]
    by (auto simp: finite_hist_def)
  have nth: "true_range h ! i =
      fmax_skipna (fsub (High h ! i) (Low h ! i))
        (fmax_skipna (fabs (fsub (High h ! i) (shift (Close h) ! i)))
                     (fabs (fsub (Low h ! i) (shift (Close h) ! i))))"
    using len by (simp add: true_range_def Let_def row_max3_def s_sub_nth s_abs_def)
  show ?thesis
  proof (cases i)
    case 0
    then have "shift (Close h) ! i = NaN" using len(3) by (auto simp: shift_nth_0)
    then show ?thesis using nth hl by (simp add: fsub_def)
  next
    case (Suc k)
    then have "shift (Close h) ! i = Close h ! k" using len(3) by (simp add: shift_nth_Suc)
    moreover obtain c where "Close h ! k = Num c"
      using assms len Suc all_num_nth [of "Close h" k] by (auto simp: finite_hist_def)
    ultimately show ?thesis using nth hl by (simp add: fsub_def)
  qed
qed

lemma true_range_all_num: "finite_hist h \<Longrightarrow> all_num (true_range h)"
  using true_range_finite [of h]
  by (intro all_numI) (simp add: length_true_range finite_hist_def)

lemma leading_undefined_atr:
  "finite_hist h \<Longrightarrow> 14 \<le> length (Date h) \<Longrightarrow> leading_undefined (atr h) = 13"
  using leading_undefined_rolling_mean [of "true_range h" 14]
  by (simp add: atr_def true_range_all_num length_true_range finite_hist_def)

lemma synthetic_sel [simp]:
  "length (Date (synthetic n hi lo cl)) = n"
  "length (Close (synthetic n hi lo cl)) = n"
  "length (High (synthetic n hi lo cl)) = n"
  "length (Low (synthetic n hi lo cl)) = n"
  "i < n \<Longrightarrow> Close (synthetic n hi lo cl) ! i = Num (cl i)"
  "i < n \<Longrightarrow> High (synthetic n hi lo cl) ! i = Num (hi i)"
  "i < n \<Longrightarrow> Low (synthetic n hi lo cl) ! i = Num (lo i)"
  by (simp_all add: synthetic_def)

lemma all_num_map_Num: "all_num (map (\<lambda>i. Num (f i)) js)"
  by (simp add: all_num_def list_all_iff is_num_def)

lemma finite_synthetic [simp]: "finite_hist (synthetic n hi lo cl)"
  by (simp add: finite_hist_def wf_hist_def synthetic_def all_num_map_Num)

lemma wf_synthetic [simp]: "wf_hist (synthetic n hi lo cl)"
  using finite_synthetic [of n hi lo cl] by (simp add: finite_hist_def)

lemma compute_sel [simp]:
  "Date (compute_indicators t m h) = Date h"
  "Open (compute_indicators t m h) = Open h"
  "High (compute_indicators t m h) = High h"
  "Low (compute_indicators t m h) = Low h"
  "Close (compute_indicators t m h) = Close h"
  "Volume (compute_indicators t m h) = Volume h"
  "MA_50D (compute_indicators t m h) = rolling_mean 50 (Close h)"
  "MA_200D (compute_indicators t m h) = rolling_mean 200 (Close h)"
  "MACD_Line (compute_indicators t m h) = macd_line (Close h)"
  "MACD_Signal (compute_indicators t m h) = macd_signal (Close h)"
  "MACD_Hist (compute_indicators t m h) = macd_hist (Close h)"
  "RSI (compute_indicators t m h) = rsi (Close h)"
  "BB_Middle (compute_indicators t m h) = rolling_mean 20 (Close h)"
  "BB_Upper (compute_indicators t m h) = bb_upper (Close h)"
  "BB_Lower (compute_indicators t m h) = bb_lower (Close h)"
  "Stoch_K (compute_indicators t m h) = stoch_k h"
  "Stoch_D (compute_indicators t m h) = stoch_d h"
  "ATR (compute_indicators t m h) = atr h"
  "Ticker (compute_indicators t m h) = replicate (length (Date h)) t"
  "Sector (compute_indicators t m h) = replicate (length (Date h)) (m ''sector'')"
  "Industry (compute_indicators t m h) = replicate (length (Date h)) (m ''industry'')"
  by (simp_all add: compute_indicators_def)

lemma length_macd [simp]:
  "length (macd_line close) = length close"
  "length (macd_signal close) = length close"
  "length (macd_hist close) = length close"
  by (simp_all add: macd_line_def macd_signal_def macd_hist_def Let_def)

lemma length_bb [simp]:
  "length (bb_upper close) = length close"
  "length (bb_lower close) = length close"
  by (simp_all add: bb_upper_def bb_lower_def)

lemma length_atr: "wf_hist h \<Longrightarrow> length (atr h) = length (Date h)"
  by (simp add: atr_def length_true_range)

lemma column_lengths:
  assumes "wf_hist h"
  shows "length (MA_50D (compute_indicators t m h)) = length (Date h)"
    and "length (MA_200D (compute_indicators t m h)) = length (Date h)"
    and "length (MACD_Line (compute_indicators t m h)) = length (Date h)"
    and "length (MACD_Signal (compute_indicators t m h)) = length (Date h)"
    and "length (MACD_Hist (compute_indicators t m h)) = length (Date h)"
    and "length (RSI (compute_indicators t m h)) = length (Date h)"
    and "length (BB_Middle (compute_indicators t m h)) = length (Date h)"
    and "length (BB_Upper (compute_indicators t m h)) = length (Date h)"
    and "length (BB_Lower (compute_indicators t m h)) = length (Date h)"
    and "length (Stoch_K (compute_indicators t m h)) = length (Date h)"
    and "length (Stoch_D (compute_indicators t m h)) = length (Date h)"
    and "length (ATR (compute_indicators t m h)) = length (Date h)"
  using assms
  by (simp_all add: length_stoch_k length_stoch_d length_atr) (simp_all add: wf_hist_def)

lemma leading_undefined_rsi_ge:
  "13 \<le> length close \<Longrightarrow> 13 \<le> leading_undefined (rsi close)"
  by (intro leading_undefined_ge) (simp_all add: rsi_warmup)

lemma leading_undefined_rsi:
  assumes "all_num close" and "14 \<le> length close" and "k < 13" and "close ! k \<noteq> close ! Suc k"
  shows "leading_undefined (rsi close) = 13"
proof (rule leading_undefined_eq)
  show "rsi close ! 13 \<noteq> NaN"
  proof (rule rsi_defined [where c = "\<lambda>j. the_num (close ! j)" and k = k])
    show "close ! j = Num (the_num (close ! j))" if "j \<le> 13" for j
      using that assms by (intro all_num_the_num) simp_all
    have "close ! k = Num (the_num (close ! k))" "close ! Suc k = Num (the_num (close ! Suc k))"
      using assms by (intro all_num_the_num; simp)+
    then show "the_num (close ! k) \<noteq> the_num (close ! Suc k)"
      using assms(4) by auto
  qed (use assms in simp_all)
qed (use assms in \<open>simp_all add: rsi_warmup\<close>)

lemma leading_undefined_stoch_k_ge:
  "wf_hist h \<Longrightarrow> 13 \<le> length (Date h) \<Longrightarrow> 13 \<le> leading_undefined (stoch_k h)"
  by (intro leading_undefined_ge) (simp_all add: stoch_k_warmup length_stoch_k)

lemma leading_undefined_stoch_k:
  assumes "finite_hist h" and "14 \<le> length (Date h)"
    and "rolling_max 14 (High h) ! 13 \<noteq> rolling_min 14 (Low h) ! 13"
  shows "leading_undefined (stoch_k h) = 13"
proof (rule leading_undefined_eq)
  have wf: "wf_hist h" using assms(1) by (simp add: finite_hist_def)
  show "13 < length (stoch_k h)" using assms wf by (simp add: length_stoch_k)
  show "stoch_k h ! i = NaN" if "i < 13" for i
    using that assms wf by (intro stoch_k_warmup) simp_all
  show "stoch_k h ! 13 \<noteq> NaN"
    using stoch_k_defined [of h 13] assms by auto
qed

lemma leading_undefined_stoch_d_ge:
  "wf_hist h \<Longrightarrow> 15 \<le> length (Date h) \<Longrightarrow> 15 \<le> leading_undefined (stoch_d h)"
  by (intro leading_undefined_ge) (simp_all add: stoch_d_warmup length_stoch_d)

lemma leading_undefined_stoch_d:
  assumes "finite_hist h" and "16 \<le> length (Date h)"
    and "\<And>j. 13 \<le> j \<Longrightarrow> j \<le> 15 \<Longrightarrow> rolling_max 14 (High h) ! j \<noteq> rolling_min 14 (Low h) ! j"
  shows "leading_undefined (stoch_d h) = 15"
proof (rule leading_undefined_eq)
  have wf: "wf_hist h" using assms(1) by (simp add: finite_hist_def)
  show "15 < length (stoch_d h)" using assms wf by (simp add: length_stoch_d)
  show "stoch_d h ! i = NaN" if "i < 15" for i
    using that assms wf by (intro stoch_d_warmup) simp_all
  show "stoch_d h ! 15 \<noteq> NaN"
    using assms by (intro stoch_d_defined) simp_all
qed

section \<open>The indicator columns\<close>

text \<open>
  Claim C1, as the code has it. For a history of at least 200 bars whose prices are all
  finite numbers, every indicator column is as long as the history, and its leading
  undefined entries number: 49 for the 50-day average, 199 for the 200-day average, 19
  for the three Bollinger columns and 13 for the average true range. The relative
  strength index has at least 13, and exactly 13 when two consecutive closes among the
  first 14 differ; the stochastic \<open>%K\<close> has at least 13, and exactly 13 when the
  first 14 bars have a non-zero range; \<open>%D\<close> has at least 15, and exactly 15 when
  the ranges at bars 13, 14 and 15 are non-zero.
\<close>

theorem warmup_counts:
  assumes "finite_hist h" and "200 \<le> length (Date h)"
  shows "length (MA_50D (compute_indicators ticker meta h)) = length (Date h) \<and>
         length (MA_200D (compute_indicators ticker meta h)) = length (Date h) \<and>
         length (MACD_Line (compute_indicators ticker meta h)) = length (Date h) \<and>
         length (MACD_Signal (compute_indicators ticker meta h)) = length (Date h) \<and>
         length (MACD_Hist (compute_indicators ticker meta h)) = length (Date h) \<and>
         length (RSI (compute_indicators ticker meta h)) = length (Date h) \<and>
         length (BB_Middle (compute_indicators ticker meta h)) = length (Date h) \<and>
         length (BB_Upper (compute_indicators ticker meta h)) = length (Date h) \<and>
         length (BB_Lower (compute_indicators ticker meta h)) = length (Date h) \<and>
         length (Stoch_K (compute_indicators ticker meta h)) = length (Date h) \<and>
         length (Stoch_D (compute_indicators ticker meta h)) = length (Date h) \<and>
         length (ATR (compute_indicators ticker meta h)) = length (Date h) \<and>
         leading_undefined (MA_50D (compute_indicators ticker meta h)) = 49 \<and>
         leading_undefined (MA_200D (compute_indicators ticker meta h)) = 199 \<and>
         leading_undefined (BB_Middle (compute_indicators ticker meta h)) = 19 \<and>
         leading_undefined (BB_Upper (compute_indicators ticker meta h)) = 19 \<and>
         leading_undefined (BB_Lower (compute_indicators ticker meta h)) = 19 \<and>
         leading_undefined (ATR (compute_indicators ticker meta h)) = 13 \<and>
         13 \<le> leading_undefined (RSI (compute_indicators ticker meta h)) \<and>
         ((\<exists>k<13. Close h ! k \<noteq> Close h ! Suc k) \<longrightarrow>
            leading_undefined (RSI (compute_indicators ticker meta h)) = 13) \<and>
         13 \<le> leading_undefined (Stoch_K (compute_indicators ticker meta h)) \<and>
         (rolling_max 14 (High h) ! 13 \<noteq> rolling_min 14 (Low h) ! 13 \<longrightarrow>
            leading_undefined (Stoch_K (compute_indicators ticker meta h)) = 13) \<and>
         15 \<le> leading_undefined (Stoch_D (compute_indicators ticker meta h)) \<and>
         ((\<forall>j. 13 \<le> j \<and> j \<le> 15 \<longrightarrow>
              rolling_max 14 (High h) ! j \<noteq> rolling_min 14 (Low h) ! j) \<longrightarrow>
            leading_undefined (Stoch_D (compute_indicators ticker meta h)) = 15)"
proof -
  have wf: "wf_hist h" and num: "all_num (Close h)" and len: "length (Close h) = length (Date h)"
    using assms(1) by (simp_all add: finite_hist_def wf_hist_def)
  note lens = column_lengths [OF wf, of ticker meta]
  have ma: "leading_undefined (MA_50D (compute_indicators ticker meta h)) = 49"
    "leading_undefined (MA_200D (compute_indicators ticker meta h)) = 199"
    "leading_undefined (BB_Middle (compute_indicators ticker meta h)) = 19"
    using assms(2) num len by (simp_all add: leading_undefined_rolling_mean)
  have bb: "leading_undefined (BB_Upper (compute_indicators ticker meta h)) = 19"
    "leading_undefined (BB_Lower (compute_indicators ticker meta h)) = 19"
    using assms(2) num len by (simp_all add: leading_undefined_bb)
  have atr: "leading_undefined (ATR (compute_indicators ticker meta h)) = 13"
    using assms by (simp add: leading_undefined_atr)
  have rsi1: "13 \<le> leading_undefined (RSI (compute_indicators ticker meta h))"
    using assms(2) len by (simp add: leading_undefined_rsi_ge)
  have rsi2: "leading_undefined (RSI (compute_indicators ticker meta h)) = 13"
    if "\<exists>k<13. Close h ! k \<noteq> Close h ! Suc k"
    using that assms(2) num len leading_undefined_rsi [of "Close h"] by auto
  have k1: "13 \<le> leading_undefined (Stoch_K (compute_indicators ticker meta h))"
    using assms(2) wf by (simp add: leading_undefined_stoch_k_ge)
  have k2: "leading_undefined (Stoch_K (compute_indicators ticker meta h)) = 13"
    if "rolling_max 14 (High h) ! 13 \<noteq> rolling_min 14 (Low h) ! 13"
    using that assms by (simp add: leading_undefined_stoch_k)
  have d1: "15 \<le> leading_undefined (Stoch_D (compute_indicators ticker meta h))"
    using assms(2) wf by (simp add: leading_undefined_stoch_d_ge)
  have d2: "leading_undefined (Stoch_D (compute_indicators ticker meta h)) = 15"
    if "\<forall>j. 13 \<le> j \<and> j \<le> 15 \<longrightarrow> rolling_max 14 (High h) ! j \<noteq> rolling_min 14 (Low h) ! j"
    using that assms by (simp add: leading_undefined_stoch_d)
  show ?thesis
    using lens ma bb atr rsi1 rsi2 k1 k2 d1 d2 by blast
qed

lemma ramp_close [simp]: "i < 200 \<Longrightarrow> Close ramp_hist ! i = Num (100 + real i)"
  by (simp add: ramp_hist_def)

lemma ramp_finite [simp]: "finite_hist ramp_hist" "length (Date ramp_hist) = 200"
  "length (Close ramp_hist) = 200"
  by (simp_all add: ramp_hist_def)

text \<open>The rising history meets the hypotheses of C1.\<close>

theorem warmup_counts_witness:
  "finite_hist ramp_hist \<and> 200 \<le> length (Date ramp_hist) \<and>
   leading_undefined (MA_50D (compute_indicators ''RAMP'' Map.empty ramp_hist)) = 49 \<and>
   leading_undefined (MA_200D (compute_indicators ''RAMP'' Map.empty ramp_hist)) = 199 \<and>
   leading_undefined (BB_Upper (compute_indicators ''RAMP'' Map.empty ramp_hist)) = 19 \<and>
   leading_undefined (ATR (compute_indicators ''RAMP'' Map.empty ramp_hist)) = 13 \<and>
   leading_undefined (RSI (compute_indicators ''RAMP'' Map.empty ramp_hist)) = 13"
proof -
  have "Close ramp_hist ! 0 \<noteq> Close ramp_hist ! Suc 0" by simp
  then have "\<exists>k<13. Close ramp_hist ! k \<noteq> Close ramp_hist ! Suc k" by (intro exI [of _ 0]) simp
  then show ?thesis
    using warmup_counts [of ramp_hist "''RAMP''" Map.empty] by simp
qed

text \<open>
  Against C1 as the specification states it (14 leading undefined entries for the
  relative strength index and the average true range): on the rising history both
  columns have 13. The first gain and loss are \<open>0\<close>, not undefined, because
  \<^verbatim>\<open>where\<close> replaces the undefined first difference; the first true range is
  \<open>high - low\<close>, because the row-wise maximum skips undefined entries.
\<close>

theorem rsi_warmup_counterexample:
  "length (Date ramp_hist) = 200 \<and>
   leading_undefined (RSI (compute_indicators ''RAMP'' Map.empty ramp_hist)) = 13 \<and>
   leading_undefined (ATR (compute_indicators ''RAMP'' Map.empty ramp_hist)) = 13"
proof -
  have "Close ramp_hist ! 0 \<noteq> Close ramp_hist ! Suc 0" by simp
  then have "leading_undefined (rsi (Close ramp_hist)) = 13"
    by (intro leading_undefined_rsi [where k = 0]) (simp_all add: ramp_hist_def all_num_map_Num synthetic_def)
  then show ?thesis
    by (simp add: leading_undefined_atr)
qed

lemma flat_sel [simp]:
  "finite_hist flat_hist" "wf_hist flat_hist" "length (Date flat_hist) = 200"
  "length (Close flat_hist) = 200" "length (High flat_hist) = 200" "length (Low flat_hist) = 200"
  "i < 200 \<Longrightarrow> Close flat_hist ! i = Num 10"
  "i < 200 \<Longrightarrow> High flat_hist ! i = Num 10"
  "i < 200 \<Longrightarrow> Low flat_hist ! i = Num 10"
  by (simp_all add: flat_hist_def)

lemma ramp_sel [simp]:
  "wf_hist ramp_hist" "length (High ramp_hist) = 200" "length (Low ramp_hist) = 200"
  "i < 200 \<Longrightarrow> High ramp_hist ! i = Num (101 + real i)"
  "i < 200 \<Longrightarrow> Low ramp_hist ! i = Num (99 + real i)"
  by (simp_all add: ramp_hist_def)

lemma min_of_const: "xs \<noteq> [] \<Longrightarrow> \<forall>x \<in> set xs. x = c \<Longrightarrow> min_of xs = c"
  by (induction xs rule: min_of.induct) simp_all

lemma max_of_const: "xs \<noteq> [] \<Longrightarrow> \<forall>x \<in> set xs. x = c \<Longrightarrow> max_of xs = c"
  by (induction xs rule: max_of.induct) simp_all

lemma rolling_min_max_const:
  assumes "i < length xs" and "13 \<le> i" and "\<And>j. j \<le> i \<Longrightarrow> xs ! j = Num c"
  shows "rolling_min 14 xs ! i = Num c" and "rolling_max 14 xs ! i = Num c"
proof -
  have ne: "map (\<lambda>j. c) [Suc i - 14..<Suc i] \<noteq> []"
    using assms(2) by simp
  have "rolling 14 (\<lambda>obs. Num (min_of obs)) xs ! i = Num (min_of (map (\<lambda>j. c) [Suc i - 14..<Suc i]))"
    using assms by (intro rolling_nth_num) simp_all
  then show "rolling_min 14 xs ! i = Num c"
    using min_of_const [OF ne, of c] by (simp add: rolling_min_def del: upt_Suc)
  have "rolling 14 (\<lambda>obs. Num (max_of obs)) xs ! i = Num (max_of (map (\<lambda>j. c) [Suc i - 14..<Suc i]))"
    using assms by (intro rolling_nth_num) simp_all
  then show "rolling_max 14 xs ! i = Num c"
    using max_of_const [OF ne, of c] by (simp add: rolling_max_def del: upt_Suc)
qed

lemma range_nonzero:
  assumes "finite_hist h" and "i < length (Date h)" and "13 \<le> i"
    and "Low h ! i = Num a" and "High h ! i = Num b" and "a < b"
  shows "rolling_max 14 (High h) ! i \<noteq> rolling_min 14 (Low h) ! i"
proof -
  have len: "i < length (Low h)" "i < length (High h)"
    using assms(1,2) by (simp_all add: finite_hist_def wf_hist_def)
  from stoch_k_finite [OF assms(1-3)] obtain l u
    where lu: "rolling_min 14 (Low h) ! i = Num l" "rolling_max 14 (High h) ! i = Num u"
    by auto
  have "l \<le> a" using rolling_min_le [OF len(1) lu(1)] assms(4) by auto
  moreover have "b \<le> u" using rolling_max_ge [OF len(2) lu(2)] assms(5) by auto
  ultimately show ?thesis using lu assms(6) by auto
qed

lemma rolling_mean_cases:
  "i < length xs \<Longrightarrow> rolling_mean w xs ! i = NaN \<or> (\<exists>r. rolling_mean w xs ! i = Num r)"
  by (simp add: rolling_mean_def rolling_nth Let_def mean_def)

lemma ewm_mean_nth_0: "xs \<noteq> [] \<Longrightarrow> ewm_mean n adjust xs ! 0 = inf_to_nan (xs ! 0)"
  by (cases xs) (simp_all add: ewm_mean_def)

text \<open>
  On finite numbers the unadjusted mean follows the recurrence
  \<open>y' = (1 - alpha) * y + alpha * x\<close> and keeps the history's weight at \<open>1\<close>.
\<close>

lemma ewm_step_unadjusted:
  "ewm_step alpha False (Num y, 1) (Num x) = (Num ((1 - alpha) * y + alpha * x), 1)"
  by (cases "y = x") (simp_all add: ewm_step_def Let_def algebra_simps)

text \<open>
  Claim C3, as the code has it. At a bar \<open>i \<ge> 13\<close> whose closes, from the bar before
  the 14-bar window on (from bar 0 when \<open>i = 13\<close>), are finite and never fall: the
  relative strength index is exactly 100 when a close rises somewhere, and is
  undefined when all these closes are equal.
\<close>

theorem rsi_of_rising_window:
  assumes "i < length (Close h)" and "13 \<le> i"
    and "\<And>j. i - 14 \<le> j \<Longrightarrow> j \<le> i \<Longrightarrow> Close h ! j = Num (c j)"
    and "\<And>j. i - 14 \<le> j \<Longrightarrow> j < i \<Longrightarrow> c j \<le> c (Suc j)"
  shows "((\<exists>k. i - 14 \<le> k \<and> k < i \<and> c k < c (Suc k)) \<longrightarrow>
            RSI (compute_indicators ticker meta h) ! i = Num 100) \<and>
         ((\<forall>k. i - 14 \<le> k \<and> k < i \<longrightarrow> c k = c (Suc k)) \<longrightarrow>
            RSI (compute_indicators ticker meta h) ! i = NaN)"
proof (intro conjI impI)
  assume "\<exists>k. i - 14 \<le> k \<and> k < i \<and> c k < c (Suc k)"
  then obtain k where "i - 14 \<le> k" "k < i" "c k < c (Suc k)" by blast
  then have "rsi (Close h) ! i = Num 100"
    using assms by (intro rsi_saturates [where c = c and k = k]) simp_all
  then show "RSI (compute_indicators ticker meta h) ! i = Num 100" by simp
next
  assume "\<forall>k. i - 14 \<le> k \<and> k < i \<longrightarrow> c k = c (Suc k)"
  then have "rsi (Close h) ! i = NaN"
    using assms by (intro rsi_flat [where c = c]) simp_all
  then show "RSI (compute_indicators ticker meta h) ! i = NaN" by simp
qed

text \<open>On the rising history the index is 100 at the last bar.\<close>

theorem rsi_of_rising_window_witness:
  "199 < length (Close ramp_hist) \<and>
   RSI (compute_indicators ''RAMP'' Map.empty ramp_hist) ! 199 = Num 100"
proof -
  have "\<exists>k. 199 - 14 \<le> k \<and> k < 199 \<and> 100 + real k < 100 + real (Suc k)"
    by (intro exI [of _ 185]) simp
  then show ?thesis
    using rsi_of_rising_window [of 199 ramp_hist "\<lambda>j. 100 + real j" "''RAMP''" Map.empty]
    by simp
qed

text \<open>
  Against C3 as the specification states it: the closes of the flat history never
  fall, and its relative strength index is undefined, not 100 (the average gain and
  the average loss are both zero, and \<open>0/0\<close> is \<open>NaN\<close>).
\<close>

theorem rsi_flat_counterexample:
  "Close flat_hist ! 12 = Num 10 \<and> Close flat_hist ! 13 = Num 10 \<and>
   RSI (compute_indicators ''FLAT'' Map.empty flat_hist) ! 13 = NaN"
proof -
  have "rsi (Close flat_hist) ! 13 = NaN"
    by (rule rsi_flat [where c = "\<lambda>j. 10"]) simp_all
  then show ?thesis by simp
qed

text \<open>
  Claim C5. The histogram column is the difference of the line and the signal at every
  bar; the line is the difference of the adjusted means of span 12 and 26 of the close,
  the signal the unadjusted mean of span 9 of the line.
\<close>

theorem macd_hist_is_line_minus_signal:
  "MACD_Line (compute_indicators ticker meta h) =
     s_sub (ewm_mean 12 True (Close h)) (ewm_mean 26 True (Close h)) \<and>
   MACD_Signal (compute_indicators ticker meta h) =
     ewm_mean 9 False (MACD_Line (compute_indicators ticker meta h)) \<and>
   (\<forall>i a b. i < length (Close h) \<and>
        MACD_Line (compute_indicators ticker meta h) ! i = Num a \<and>
        MACD_Signal (compute_indicators ticker meta h) ! i = Num b \<longrightarrow>
        MACD_Hist (compute_indicators ticker meta h) ! i = Num (a - b)) \<and>
   (\<forall>i. i < length (Close h) \<longrightarrow>
        MACD_Hist (compute_indicators ticker meta h) ! i =
          fsub (MACD_Line (compute_indicators ticker meta h) ! i)
               (MACD_Signal (compute_indicators ticker meta h) ! i))"
proof (intro conjI allI impI)
  show "MACD_Line (compute_indicators ticker meta h) =
          s_sub (ewm_mean 12 True (Close h)) (ewm_mean 26 True (Close h))"
    by (simp add: macd_line_def Let_def)
  show "MACD_Signal (compute_indicators ticker meta h) =
          ewm_mean 9 False (MACD_Line (compute_indicators ticker meta h))"
    by (simp add: macd_signal_def)
next
  fix i a b
  assume "i < length (Close h) \<and>
        MACD_Line (compute_indicators ticker meta h) ! i = Num a \<and>
        MACD_Signal (compute_indicators ticker meta h) ! i = Num b"
  then have "i < length (Close h)" "macd_line (Close h) ! i = Num a"
    "macd_signal (Close h) ! i = Num b"
    by simp_all
  then have "macd_hist (Close h) ! i = Num (a - b)"
    by (simp add: macd_hist_def s_sub_nth fsub_def)
  then show "MACD_Hist (compute_indicators ticker meta h) ! i = Num (a - b)"
    by simp
next
  fix i
  assume "i < length (Close h)"
  then have "macd_hist (Close h) ! i = fsub (macd_line (Close h) ! i) (macd_signal (Close h) ! i)"
    by (simp add: macd_hist_def s_sub_nth)
  then show "MACD_Hist (compute_indicators ticker meta h) ! i =
          fsub (MACD_Line (compute_indicators ticker meta h) ! i)
               (MACD_Signal (compute_indicators ticker meta h) ! i)"
    by simp
qed

text \<open>At the first bar of the rising history the line, the signal and the histogram are 0.\<close>

theorem macd_hist_is_line_minus_signal_witness:
  "0 < length (Close ramp_hist) \<and>
   MACD_Line (compute_indicators ''RAMP'' Map.empty ramp_hist) ! 0 = Num 0 \<and>
   MACD_Signal (compute_indicators ''RAMP'' Map.empty ramp_hist) ! 0 = Num 0 \<and>
   MACD_Hist (compute_indicators ''RAMP'' Map.empty ramp_hist) ! 0 = Num (0 - 0)"
proof -
  have ne: "Close ramp_hist \<noteq> []" "macd_line (Close ramp_hist) \<noteq> []"
    by (simp_all add: length_greater_0_conv [symmetric] del: length_greater_0_conv)
  have line: "macd_line (Close ramp_hist) ! 0 = Num 0"
    using ne(1) by (simp add: macd_line_def Let_def s_sub_nth ewm_mean_nth_0 fsub_def inf_to_nan_def)
  have signal: "macd_signal (Close ramp_hist) ! 0 = Num 0"
    using ne(2) line by (simp add: macd_signal_def ewm_mean_nth_0 inf_to_nan_def)
  show ?thesis
    using macd_hist_is_line_minus_signal [of "''RAMP''" Map.empty ramp_hist] line signal
    by simp
qed

text \<open>
  Claim C6. At a bar with \<open>low \<le> close \<le> high\<close> where the rolling 14-bar high
  equals the rolling 14-bar low, \<open>%K\<close> is computed without failing (the division is
  total) and is the undefined value \<open>NaN\<close>: the close then equals the common value
  and \<open>0/0\<close> is \<open>NaN\<close>.
\<close>

theorem stoch_k_of_zero_range:
  assumes "wf_hist h" and "i < length (Date h)"
    and "rolling_max 14 (High h) ! i = Num a" and "rolling_min 14 (Low h) ! i = Num a"
    and "fle (Low h ! i) (Close h ! i)" and "fle (Close h ! i) (High h ! i)"
  shows "Stoch_K (compute_indicators ticker meta h) ! i = NaN \<and>
         isna (Stoch_K (compute_indicators ticker meta h) ! i)"
proof -
  have len: "i < length (Low h)" "i < length (High h)"
    using assms(1,2) by (simp_all add: wf_hist_def)
  from rolling_min_le [OF len(1) assms(4)] obtain lo where lo: "Low h ! i = Num lo" "a \<le> lo"
    by auto
  from rolling_max_ge [OF len(2) assms(3)] obtain hi where hi: "High h ! i = Num hi" "hi \<le> a"
    by auto
  from assms(5,6) lo hi have "Close h ! i = Num a"
    by (auto simp: fle_Num fle_Num2)
  then have "stoch_k h ! i = NaN"
    by (simp add: stoch_k_zero_range [OF assms(1-4)])
  then show ?thesis by (simp add: isna_def)
qed

text \<open>On the flat history the range is zero at bar 13 and \<open>%K\<close> is undefined there.\<close>

theorem stoch_k_of_zero_range_witness:
  "wf_hist flat_hist \<and> 13 < length (Date flat_hist) \<and>
   rolling_max 14 (High flat_hist) ! 13 = Num 10 \<and>
   rolling_min 14 (Low flat_hist) ! 13 = Num 10 \<and>
   fle (Low flat_hist ! 13) (Close flat_hist ! 13) \<and>
   fle (Close flat_hist ! 13) (High flat_hist ! 13) \<and>
   Stoch_K (compute_indicators ''FLAT'' Map.empty flat_hist) ! 13 = NaN"
proof -
  have r: "rolling_max 14 (High flat_hist) ! 13 = Num 10"
    "rolling_min 14 (Low flat_hist) ! 13 = Num 10"
    by (rule rolling_min_max_const; simp)+
  show ?thesis
    using stoch_k_of_zero_range [of flat_hist 13 10 "''FLAT''" Map.empty] r
    by (simp add: fle_def)
qed

text \<open>
  In exact arithmetic: when every bar has \<open>low \<le> close \<le> high\<close>, every value of
  \<open>%K\<close> that is a number lies between 0 and 100, and so does every such value of
  \<open>%D\<close>.
\<close>

theorem stochastic_between_0_and_100:
  assumes "wf_hist h"
    and "\<And>j. j < length (Date h) \<Longrightarrow>
           fle (Low h ! j) (Close h ! j) \<and> fle (Close h ! j) (High h ! j)"
    and "i < length (Date h)"
  shows "(\<forall>v. Stoch_K (compute_indicators ticker meta h) ! i = Num v \<longrightarrow> 0 \<le> v \<and> v \<le> 100) \<and>
         (\<forall>v. Stoch_D (compute_indicators ticker meta h) ! i = Num v \<longrightarrow> 0 \<le> v \<and> v \<le> 100)"
proof -
  have "0 \<le> v \<and> v \<le> 100" if "stoch_k h ! i = Num v" for v
    using that assms by (intro stoch_k_bounds [of h i]) simp_all
  moreover have "0 \<le> v \<and> v \<le> 100" if "stoch_d h ! i = Num v" for v
    using that assms by (intro stoch_d_bounds [of h i]) simp_all
  ultimately show ?thesis by simp
qed

text \<open>
  On the rising history \<open>%K\<close> and \<open>%D\<close> are numbers at bar 15, between 0 and 100.
\<close>

theorem stochastic_between_0_and_100_witness:
  "wf_hist ramp_hist \<and> 15 < length (Date ramp_hist) \<and>
   fle (Low ramp_hist ! 15) (Close ramp_hist ! 15) \<and>
   fle (Close ramp_hist ! 15) (High ramp_hist ! 15) \<and>
   (\<exists>v. Stoch_K (compute_indicators ''RAMP'' Map.empty ramp_hist) ! 15 = Num v \<and>
        0 \<le> v \<and> v \<le> 100) \<and>
   (\<exists>v. Stoch_D (compute_indicators ''RAMP'' Map.empty ramp_hist) ! 15 = Num v \<and>
        0 \<le> v \<and> v \<le> 100)"
proof -
  have range: "rolling_max 14 (High ramp_hist) ! j \<noteq> rolling_min 14 (Low ramp_hist) ! j"
    if "13 \<le> j" "j \<le> 15" for j
    using that
    by (intro range_nonzero [where a = "99 + real j" and b = "101 + real j"]) simp_all
  have bars: "fle (Low ramp_hist ! j) (Close ramp_hist ! j) \<and>
              fle (Close ramp_hist ! j) (High ramp_hist ! j)" if "j < 200" for j
    using that by (simp add: fle_def)
  obtain k where k: "stoch_k ramp_hist ! 15 = Num k"
    using stoch_k_defined [of ramp_hist 15] range [of 15] by auto
  have "stoch_d ramp_hist ! 15 \<noteq> NaN"
    using range by (intro stoch_d_defined) simp_all
  then obtain d where d: "stoch_d ramp_hist ! 15 = Num d"
    using rolling_mean_cases [of 15 "stoch_k ramp_hist" 3]
    by (auto simp: stoch_d_def length_stoch_k)
  have "0 \<le> k \<and> k \<le> 100" "0 \<le> d \<and> d \<le> 100"
    using stochastic_between_0_and_100 [of ramp_hist 15 "''RAMP''" Map.empty] bars k d
    by simp_all
  then show ?thesis
    using k d bars [of 15] by simp
qed

subsection \<open>Rounded arithmetic\<close>

lemma round_even_cases: "round_even t = \<lfloor>t\<rfloor> \<or> round_even t = \<lfloor>t\<rfloor> + 1"
  by (simp add: round_even_def Let_def)

lemma round_even_upper: "real_of_int (round_even t) \<le> t + 1 / 2"
proof -
  have "real_of_int \<lfloor>t\<rfloor> \<le> t" by simp
  then show ?thesis
    by (simp add: round_even_def Let_def) linarith
qed

lemma round_even_lower: "t - 1 / 2 \<le> real_of_int (round_even t)"
proof -
  have "t < real_of_int \<lfloor>t\<rfloor> + 1" by linarith
  then show ?thesis
    by (simp add: round_even_def Let_def) linarith
qed

lemma round_even_of_int [simp]: "round_even (of_int k) = k"
  by (simp add: round_even_def)

lemma round_even_ge_floor: "\<lfloor>t\<rfloor> \<le> round_even t"
  using round_even_cases [of t] by auto

lemma round_even_le_ceiling: "round_even t \<le> \<lceil>t\<rceil>"
proof (cases "t = of_int \<lfloor>t\<rfloor>")
  case True
  then have "round_even t = \<lfloor>t\<rfloor>" by (metis round_even_of_int)
  then show ?thesis by (simp add: floor_le_ceiling)
next
  case False
  then have "\<lceil>t\<rceil> = \<lfloor>t\<rfloor> + 1"
    by (simp add: ceiling_altdef)
  then show ?thesis using round_even_cases [of t] by auto
qed

lemma round_even_mono:
  assumes "a \<le> b"
  shows "round_even a \<le> round_even b"
proof (cases "\<lfloor>a\<rfloor> = \<lfloor>b\<rfloor>")
  case True
  then have "a - of_int \<lfloor>a\<rfloor> \<le> b - of_int \<lfloor>b\<rfloor>" using assms by simp
  then show ?thesis
    using True by (auto simp: round_even_def Let_def)
next
  case False
  then have "\<lfloor>a\<rfloor> < \<lfloor>b\<rfloor>" using assms floor_mono [of a b] by linarith
  then have "round_even a \<le> \<lfloor>b\<rfloor>" using round_even_cases [of a] by auto
  then show ?thesis using round_even_ge_floor [of b] by linarith
qed

lemma round64_pos:
  assumes "0 < x"
  obtains e :: int and s :: real
  where "e = \<lfloor>log 2 x\<rfloor>" and "0 < s" and "round64 x = of_int (round_even (x / s)) * s"
    and "2 ^ 52 * s = 2 powr (of_int e)" and "2 ^ 53 * s = 2 powr (of_int e + 1)"
    and "2 ^ 52 * s \<le> x" and "x < 2 ^ 53 * s"
proof -
  define e where "e = \<lfloor>log 2 x\<rfloor>"
  define s :: real where "s = 2 powr (of_int e - 52)"
  have bin: "(2 :: real) powr (of_int e) \<le> x" "x < (2 :: real) powr (of_int e + 1)"
    using floor_log_eq_powr_iff [of x 2 e] assms by (simp_all add: e_def)
  have "(2 :: real) powr (of_int e - 52 + 52) = 2 powr (of_int e - 52) * 2 powr 52"
    by (rule powr_add)
  then have s52: "2 ^ 52 * s = 2 powr (of_int e)"
    by (simp add: s_def)
  have "(2 :: real) powr (of_int e - 52 + 53) = 2 powr (of_int e - 52) * 2 powr 53"
    by (rule powr_add)
  moreover have "real_of_int e - 52 + 53 = of_int e + 1"
    by simp
  ultimately have s53: "2 ^ 53 * s = 2 powr (of_int e + 1)"
    by (simp only: s_def) simp
  have "round64 x = of_int (round_even (x / s)) * s"
    using assms by (simp add: round64_def Let_def s_def e_def)
  moreover have "0 < s" by (simp add: s_def)
  ultimately show ?thesis
    using that [of e s] s52 s53 bin by (simp add: e_def)
qed

lemma round64_zero [simp]: "round64 0 = 0"
  by (simp add: round64_def)

lemma round64_binade:
  assumes "0 < x" and "0 < s" and "2 ^ 52 * s \<le> x" and "x < 2 ^ 53 * s"
  shows "2 ^ 52 * s \<le> of_int (round_even (x / s)) * s"
    and "of_int (round_even (x / s)) * s \<le> 2 ^ 53 * s"
proof -
  have t: "2 ^ 52 \<le> x / s" "x / s \<le> 2 ^ 53"
    using assms by (simp_all add: pos_le_divide_eq pos_divide_le_eq)
  have "(2 ^ 52 :: int) \<le> \<lfloor>x / s\<rfloor>"
    using t(1) by (simp add: le_floor_iff)
  then have "(2 ^ 52 :: int) \<le> round_even (x / s)"
    using round_even_ge_floor [of "x / s"] by linarith
  then have "(2 ^ 52 :: real) \<le> of_int (round_even (x / s))"
    by (metis of_int_le_iff of_int_numeral of_int_power)
  then show "2 ^ 52 * s \<le> of_int (round_even (x / s)) * s"
    using assms(2) by simp
  have "\<lceil>x / s\<rceil> \<le> (2 ^ 53 :: int)"
    using t(2) by (simp add: ceiling_le_iff)
  then have "round_even (x / s) \<le> (2 ^ 53 :: int)"
    using round_even_le_ceiling [of "x / s"] by linarith
  then have "of_int (round_even (x / s)) \<le> (2 ^ 53 :: real)"
    by (metis of_int_le_iff of_int_numeral of_int_power)
  then show "of_int (round_even (x / s)) * s \<le> 2 ^ 53 * s"
    using assms(2) by simp
qed

lemma round64_positive: "0 < x \<Longrightarrow> 0 < round64 x"
proof -
  assume x: "0 < x"
  obtain e s where es: "0 < s" "round64 x = of_int (round_even (x / s)) * s"
    "2 ^ 52 * s \<le> x" "x < 2 ^ 53 * s"
    using round64_pos [OF x] by metis
  have "0 < 2 ^ 52 * s" using es(1) by simp
  then show ?thesis
    using round64_binade(1) [OF x es(1,3,4)] es(2) by linarith
qed

lemma round64_upper:
  assumes "0 \<le> x"
  shows "round64 x \<le> x * (1 + 1 / 2 ^ 53)"
proof (cases "x = 0")
  case True
  then show ?thesis by simp
next
  case False
  then have x: "0 < x" using assms by simp
  obtain e s where es: "0 < s" "round64 x = of_int (round_even (x / s)) * s"
    "2 ^ 52 * s \<le> x" "x < 2 ^ 53 * s"
    using round64_pos [OF x] by metis
  have "of_int (round_even (x / s)) * s \<le> (x / s + 1 / 2) * s"
    using round_even_upper [of "x / s"] es(1) by (simp only: mult_le_cancel_right_pos)
  also have "\<dots> = x + s / 2"
    using es(1) by (simp add: algebra_simps)
  also have "\<dots> \<le> x + x / 2 ^ 53"
    using es(3) by simp
  finally show ?thesis
    using es(2) by (simp add: algebra_simps)
qed

lemma round64_mono:
  assumes "0 \<le> x" and "x \<le> y"
  shows "round64 x \<le> round64 y"
proof (cases "x = 0")
  case True
  then show ?thesis
    using assms round64_positive [of y] by (cases "y = 0") (simp_all add: less_imp_le)
next
  case False
  then have x: "0 < x" and y: "0 < y" using assms by simp_all
  obtain ex sx where ex: "ex = \<lfloor>log 2 x\<rfloor>" "0 < sx"
    "round64 x = of_int (round_even (x / sx)) * sx"
    "2 ^ 52 * sx = 2 powr (of_int ex)" "2 ^ 53 * sx = 2 powr (of_int ex + 1)"
    "2 ^ 52 * sx \<le> x" "x < 2 ^ 53 * sx"
    using round64_pos [OF x] by metis
  obtain ey sy where ey: "ey = \<lfloor>log 2 y\<rfloor>" "0 < sy"
    "round64 y = of_int (round_even (y / sy)) * sy"
    "2 ^ 52 * sy = 2 powr (of_int ey)" "2 ^ 53 * sy = 2 powr (of_int ey + 1)"
    "2 ^ 52 * sy \<le> y" "y < 2 ^ 53 * sy"
    using round64_pos [OF y] by metis
  have le: "ex \<le> ey"
    unfolding ex(1) ey(1) using x assms(2) by (intro floor_mono log_mono) simp_all
  show ?thesis
  proof (cases "ex = ey")
    case True
    then have "sx = sy" using ex(4) ey(4) by simp
    moreover have "round_even (x / sy) \<le> round_even (y / sy)"
      using assms(2) ey(2) by (intro round_even_mono) (simp add: divide_right_mono)
    ultimately show ?thesis
      using ex(3) ey(3) ey(2) by simp
  next
    case False
    then have "of_int ex + 1 \<le> (of_int ey :: real)" using le by linarith
    then have "(2 :: real) powr (of_int ex + 1) \<le> 2 powr (of_int ey)"
      by (intro powr_mono) simp_all
    moreover have "round64 x \<le> 2 powr (of_int ex + 1)"
      using round64_binade(2) [OF x ex(2,6,7)] ex(3,5) by simp
    moreover have "2 powr (of_int ey) \<le> round64 y"
      using round64_binade(1) [OF y ey(2,6,7)] ey(3,4) by simp
    ultimately show ?thesis by linarith
  qed
qed

lemma rounding_round64: "rounding (1 / 2 ^ 53) round64"
  unfolding rounding_def
proof (intro conjI allI impI)
  show "round64 x \<le> round64 y" if "0 \<le> x \<and> x \<le> y" for x y
    using that by (intro round64_mono) simp_all
  show "round64 x \<le> x * (1 + 1 / 2 ^ 53)" if "0 \<le> x" for x
    using that by (rule round64_upper)
qed simp_all

lemma rounding_exact: "rounding 0 (\<lambda>x. x)"
  by (simp add: rounding_def)

lemma fround_simps [simp]:
  "fround rnd NaN = NaN" "fround rnd PInf = PInf" "fround rnd NInf = NInf"
  "fround rnd (Num r) = Num (rnd r)"
  by (simp_all add: fround_def)

lemma fround_exact: "fround (\<lambda>x. x) x = x"
  by (cases x) simp_all

lemma stoch_k_with_exact: "stoch_k_with (\<lambda>x. x) h = stoch_k h"
proof -
  have "map (fround (\<lambda>x. x)) xs = xs" for xs
    by (simp add: fround_exact map_idI)
  then show ?thesis
    by (simp only: stoch_k_with_def stoch_k_def Let_def)
qed

lemma length_stoch_k_with: "wf_hist h \<Longrightarrow> length (stoch_k_with rnd h) = length (Date h)"
  by (simp add: stoch_k_with_def Let_def wf_hist_def)

lemma stoch_k_with_nth:
  "wf_hist h \<Longrightarrow> i < length (Date h) \<Longrightarrow>
   stoch_k_with rnd h ! i =
     fround rnd (fdiv
       (fround rnd (fmul (Num 100)
          (fround rnd (fsub (Close h ! i) (rolling_min 14 (Low h) ! i)))))
       (fround rnd (fsub (rolling_max 14 (High h) ! i) (rolling_min 14 (Low h) ! i))))"
  by (simp add: stoch_k_with_def Let_def wf_hist_def s_div_nth s_sub_nth)

lemma roundingD:
  assumes "rounding u rnd"
  shows "0 \<le> u" and "rnd 0 = 0" and "0 \<le> x \<Longrightarrow> x \<le> y \<Longrightarrow> rnd x \<le> rnd y"
    and "0 \<le> x \<Longrightarrow> rnd x \<le> x * (1 + u)" and "0 \<le> x \<Longrightarrow> 0 \<le> rnd x"
proof -
  show "0 \<le> u" "rnd 0 = 0" using assms by (simp_all add: rounding_def)
  show mono: "rnd x \<le> rnd y" if "0 \<le> x" "x \<le> y" for x y
    using assms that by (simp add: rounding_def)
  show "rnd x \<le> x * (1 + u)" if "0 \<le> x"
    using assms that by (simp add: rounding_def)
  show "0 \<le> rnd x" if "0 \<le> x"
    using mono [of 0 x] that \<open>rnd 0 = 0\<close> by simp
qed

lemma stoch_k_with_bounds:
  assumes r: "rounding u rnd" and wf: "wf_hist h" and i: "i < length (Date h)"
    and lo: "fle (Low h ! i) (Close h ! i)" and hi: "fle (Close h ! i) (High h ! i)"
    and v: "stoch_k_with rnd h ! i = Num v"
  shows "0 \<le> v \<and> v \<le> 100 * (1 + u) * (1 + u)"
proof -
  have len: "i < length (Low h)" "i < length (High h)"
    using wf i by (simp_all add: wf_hist_def)
  let ?L = "rolling_min 14 (Low h) ! i" and ?H = "rolling_max 14 (High h) ! i"
  have eq: "fround rnd (fdiv
       (fround rnd (fmul (Num 100) (fround rnd (fsub (Close h ! i) ?L))))
       (fround rnd (fsub ?H ?L))) = Num v"
    using v by (simp add: stoch_k_with_nth [OF wf i])
  from rolling_min_max_cases(1) [OF len(1)] obtain l where l: "?L = Num l"
    using eq by auto
  from rolling_min_max_cases(2) [OF len(2)] obtain t where t: "?H = Num t"
    using eq l by (auto simp: fsub_def)
  from rolling_min_le [OF len(1) l] obtain lo_i where lo_i: "Low h ! i = Num lo_i" "l \<le> lo_i"
    by auto
  from rolling_max_ge [OF len(2) t] obtain hi_i where hi_i: "High h ! i = Num hi_i" "hi_i \<le> t"
    by auto
  from hi hi_i lo lo_i obtain c where c: "Close h ! i = Num c" "lo_i \<le> c" "c \<le> hi_i"
    by (auto simp: fle_Num fle_Num2)
  define x1 where "x1 = rnd (c - l)"
  define y1 where "y1 = rnd (t - l)"
  define n where "n = rnd (100 * x1)"
  have eq': "fround rnd (fdiv (Num n) (Num y1)) = Num v"
    using eq l t c by (simp add: fsub_def x1_def y1_def n_def)
  have y1_ne: "y1 \<noteq> 0" and veq: "v = rnd (n / y1)"
    using eq' by (auto simp: inf_of_sign_def split: if_splits)
  have cl: "0 \<le> c - l" "c - l \<le> t - l"
    using lo_i hi_i c by linarith+
  have x1: "0 \<le> x1" "x1 \<le> y1"
    unfolding x1_def y1_def using cl by (auto intro: roundingD [OF r])
  then have y1: "0 < y1" using y1_ne by simp
  have n0: "0 \<le> n"
    unfolding n_def using x1(1) by (intro roundingD(5) [OF r]) simp
  have "n \<le> rnd (100 * y1)"
    unfolding n_def using x1 by (intro roundingD(3) [OF r]) simp_all
  also have "\<dots> \<le> 100 * y1 * (1 + u)"
    using y1 by (intro roundingD(4) [OF r]) simp
  finally have "n / y1 \<le> 100 * (1 + u)"
    using y1 by (simp add: pos_divide_le_eq algebra_simps)
  moreover have q0: "0 \<le> n / y1" using n0 y1 by simp
  ultimately have "rnd (n / y1) \<le> rnd (100 * (1 + u))"
    by (intro roundingD(3) [OF r])
  also have "\<dots> \<le> 100 * (1 + u) * (1 + u)"
    using roundingD(1) [OF r] by (intro roundingD(4) [OF r]) simp
  finally have "v \<le> 100 * (1 + u) * (1 + u)" by (simp add: veq)
  moreover have "0 \<le> v" unfolding veq using q0 by (rule roundingD(5) [OF r])
  ultimately show ?thesis by simp
qed

lemma round64_at:
  fixes k :: int
  assumes "2 powr (of_int k) \<le> x" and "x < 2 powr (of_int k + 1)"
  shows "round64 x = of_int (round_even (x / 2 powr (of_int k - 52))) * 2 powr (of_int k - 52)"
proof -
  have x: "0 < x"
    using assms(1) powr_gt_zero [of 2 "of_int k"] by linarith
  then have "\<lfloor>log 2 x\<rfloor> = k"
    using floor_log_eq_powr_iff [of x 2 k] assms by simp
  then show ?thesis
    using x by (simp add: round64_def Let_def)
qed

lemma round64_spread: "round64 (5783454194125835 / 2 ^ 47) = 5783454194125835 / 2 ^ 47"
  by (subst round64_at [where k = 5]) (simp_all add: powr_minus round_even_def)

lemma round64_scaled:
  "round64 (100 * (5783454194125835 / 2 ^ 47)) = 4518323589160809 / 2 ^ 40"
  by (subst round64_at [where k = 12]) (simp_all add: powr_minus round_even_def)

lemma round64_quotient:
  "round64 (4518323589160809 / 2 ^ 40 / (5783454194125835 / 2 ^ 47)) = 100 + 1 / 2 ^ 46"
  by (subst round64_at [where k = 6]) (simp_all add: powr_minus round_even_def)

lemma stoch_d_with_bounds:
  assumes r: "rounding u rnd" and wf: "wf_hist h" and i: "i < length (Date h)"
    and bars: "\<And>j. j < length (Date h) \<Longrightarrow>
                 fle (Low h ! j) (Close h ! j) \<and> fle (Close h ! j) (High h ! j)"
    and v: "stoch_d_with rnd h ! i = Num v"
  shows "0 \<le> v \<and> v \<le> 100 * (1 + u) * (1 + u)"
proof -
  have len: "i < length (stoch_k_with rnd h)" using wf i by (simp add: length_stoch_k_with)
  have ne: "rolling 3 mean (stoch_k_with rnd h) ! i \<noteq> NaN"
    using v by (simp add: stoch_d_with_def rolling_mean_def)
  note c = rolling_nth_cases [OF len ne]
  let ?vs = "map (\<lambda>j. the_num (stoch_k_with rnd h ! j)) [Suc i - 3..<Suc i]"
  have "0 \<le> x \<and> x \<le> 100 * (1 + u) * (1 + u)" if "x \<in> set ?vs" for x
  proof -
    from that obtain j where j: "Suc i - 3 \<le> j" "j \<le> i" "x = the_num (stoch_k_with rnd h ! j)"
      unfolding set_map set_upt by auto
    then have "stoch_k_with rnd h ! j = Num x" using c(2) [of j] by simp
    moreover have "j < length (Date h)" using j i by simp
    ultimately show ?thesis
      using bars [of j] by (intro stoch_k_with_bounds [OF r wf, of j]) simp_all
  qed
  from sum_list_bounds [of ?vs 0 "100 * (1 + u) * (1 + u)", OF this]
  have "0 \<le> sum_list ?vs" "sum_list ?vs \<le> 3 * (100 * (1 + u) * (1 + u))"
    using c(1) by (simp_all del: upt_Suc)
  moreover have "v = sum_list ?vs / 3"
    using c(3) v c(1) by (simp add: stoch_d_with_def rolling_mean_def mean_def del: upt_Suc)
  ultimately show ?thesis by simp
qed

text \<open>
  Claim C10, as the code has it. When every bar has \<open>low \<le> close \<le> high\<close>, every
  value of \<open>%K\<close> that is a number is at least 0 and at most \<open>100 * (1 + u)\<^sup>2\<close>, where
  \<open>u\<close> is the unit roundoff of the arithmetic: 0 in exact arithmetic, \<open>2\<^sup>-\<^sup>5\<^sup>3\<close> for
  binary64, where the bound lies below the second float above 100. Every value of \<open>%D\<close>
  that is a number is the mean of three such values and, the mean taken exactly, lies
  within the same bounds.
\<close>

theorem stochastic_bounds_up_to_rounding:
  assumes "rounding u rnd" and "wf_hist h"
    and "\<And>j. j < length (Date h) \<Longrightarrow>
           fle (Low h ! j) (Close h ! j) \<and> fle (Close h ! j) (High h ! j)"
    and "i < length (Date h)"
  shows "(\<forall>v. stoch_k_with rnd h ! i = Num v \<longrightarrow> 0 \<le> v \<and> v \<le> 100 * (1 + u) * (1 + u)) \<and>
         (\<forall>v. stoch_d_with rnd h ! i = Num v \<longrightarrow> 0 \<le> v \<and> v \<le> 100 * (1 + u) * (1 + u))"
proof -
  have "0 \<le> v \<and> v \<le> 100 * (1 + u) * (1 + u)" if "stoch_k_with rnd h ! i = Num v" for v
    using that assms by (intro stoch_k_with_bounds [of u rnd h i]) simp_all
  moreover have "0 \<le> v \<and> v \<le> 100 * (1 + u) * (1 + u)" if "stoch_d_with rnd h ! i = Num v" for v
    using that assms by (intro stoch_d_with_bounds [of u rnd h i]) simp_all
  ultimately show ?thesis by simp
qed

lemma ulp_sel [simp]:
  "finite_hist ulp_hist" "wf_hist ulp_hist" "length (Date ulp_hist) = 200"
  "length (Close ulp_hist) = 200" "length (High ulp_hist) = 200" "length (Low ulp_hist) = 200"
  "i < 200 \<Longrightarrow> Close ulp_hist ! i = Num (10 + 5783454194125835 / 2 ^ 47)"
  "i < 200 \<Longrightarrow> High ulp_hist ! i = Num (10 + 5783454194125835 / 2 ^ 47)"
  "i < 200 \<Longrightarrow> Low ulp_hist ! i = Num 10"
  by (simp_all add: ulp_hist_def)

lemma stoch_k_with_nth_num:
  assumes "wf_hist h" and "i < length (Date h)" and "Close h ! i = Num c"
    and "rolling_min 14 (Low h) ! i = Num l" and "rolling_max 14 (High h) ! i = Num t"
    and "rnd (t - l) \<noteq> 0"
  shows "stoch_k_with rnd h ! i = Num (rnd (rnd (100 * rnd (c - l)) / rnd (t - l)))"
  using assms(3-6) by (simp add: stoch_k_with_nth [OF assms(1,2)] fsub_def)

lemma stoch_k_ulp: "stoch_k_with round64 ulp_hist ! 13 = Num (100 + 1 / 2 ^ 46)"
proof -
  have r: "rolling_min 14 (Low ulp_hist) ! 13 = Num 10"
    "rolling_max 14 (High ulp_hist) ! 13 = Num (10 + 5783454194125835 / 2 ^ 47)"
    by (rule rolling_min_max_const; simp)+
  have c: "Close ulp_hist ! 13 = Num (10 + 5783454194125835 / 2 ^ 47)"
    and i: "13 < length (Date ulp_hist)"
    by simp_all
  have d: "10 + 5783454194125835 / 2 ^ 47 - 10 = (5783454194125835 / 2 ^ 47 :: real)"
    by simp
  have ne: "round64 (10 + 5783454194125835 / 2 ^ 47 - 10) \<noteq> 0"
    unfolding d round64_spread by simp
  show ?thesis
    unfolding stoch_k_with_nth_num [where rnd = round64, OF ulp_sel(2) i c r ne]
    by (simp only: d round64_spread round64_scaled round64_quotient)
qed

text \<open>
  Binary64 rounding meets the hypotheses, and on the example history \<open>%K\<close> at bar 13
  is within the bounds.
\<close>

theorem stochastic_bounds_up_to_rounding_witness:
  "rounding (1 / 2 ^ 53) round64 \<and> wf_hist ulp_hist \<and> 13 < length (Date ulp_hist) \<and>
   fle (Low ulp_hist ! 13) (Close ulp_hist ! 13) \<and>
   fle (Close ulp_hist ! 13) (High ulp_hist ! 13) \<and>
   stoch_k_with round64 ulp_hist ! 13 = Num (100 + 1 / 2 ^ 46) \<and>
   (0 :: real) \<le> 100 + 1 / 2 ^ 46 \<and>
   (100 :: real) + 1 / 2 ^ 46 \<le> 100 * (1 + 1 / 2 ^ 53) * (1 + 1 / 2 ^ 53)"
proof -
  have bars: "fle (Low ulp_hist ! j) (Close ulp_hist ! j) \<and>
              fle (Close ulp_hist ! j) (High ulp_hist ! j)" if "j < length (Date ulp_hist)" for j
    using that by (simp add: fle_def)
  have i: "13 < length (Date ulp_hist)" by simp
  from stochastic_bounds_up_to_rounding [OF rounding_round64 ulp_sel(2) bars i]
  have "\<forall>v. stoch_k_with round64 ulp_hist ! 13 = Num v \<longrightarrow>
          0 \<le> v \<and> v \<le> 100 * (1 + 1 / 2 ^ 53) * (1 + 1 / 2 ^ 53)"
    by (rule conjunct1)
  then have "(0 :: real) \<le> 100 + 1 / 2 ^ 46 \<and>
        (100 :: real) + 1 / 2 ^ 46 \<le> 100 * (1 + 1 / 2 ^ 53) * (1 + 1 / 2 ^ 53)"
    using stoch_k_ulp by blast
  then show ?thesis
    using rounding_round64 stoch_k_ulp bars [of 13] by simp
qed

text \<open>
  Against C10 as the specification states it: on the example history, whose bars have
  \<open>low \<le> close \<le> high\<close>, the binary64 value of \<open>%K\<close> at bar 13 is
  \<open>100 + 2\<^sup>-\<^sup>4\<^sup>6\<close>, the float next above 100: the product \<open>100 * y\<close> is rounded
  up, and the quotient by \<open>y\<close> is rounded up again.
\<close>

theorem stoch_k_above_100_counterexample:
  "fle (Low ulp_hist ! 13) (Close ulp_hist ! 13) \<and>
   fle (Close ulp_hist ! 13) (High ulp_hist ! 13) \<and>
   stoch_k_with round64 ulp_hist ! 13 = Num (100 + 1 / 2 ^ 46) \<and>
   \<not> (100 + 1 / 2 ^ 46 \<le> (100 :: real))"
  using stoch_k_ulp by (simp add: fle_def)

section \<open>The report window\<close>

lemma length_tail: "length (tail n xs) = min n (length xs)"
  by (simp add: tail_def)

lemma tail_nth: "n \<le> length xs \<Longrightarrow> k < n \<Longrightarrow> tail n xs ! k = xs ! (length xs - n + k)"
  by (simp add: tail_def)

lemma recent_hist_sel [simp]:
  "Date (recent_hist f) = map tz_localize_none (tail 5 (Date f))"
  "Open (recent_hist f) = tail 5 (Open f)"
  "High (recent_hist f) = tail 5 (High f)"
  "Low (recent_hist f) = tail 5 (Low f)"
  "Close (recent_hist f) = tail 5 (Close f)"
  "Volume (recent_hist f) = tail 5 (Volume f)"
  by (simp_all add: recent_hist_def tail_frame_def Let_def)

text \<open>
  Claim C9. The augmented frame holds the date, open, high, low, close and volume
  columns of the history unchanged. For a history of at least 200 bars the report window
  has 5 rows, and row \<open>k\<close> of it carries the open, high, low, close and volume of bar
  \<open>n - 5 + k\<close> of the history and that bar's time stamp, in the history's order.
\<close>

theorem original_columns_unchanged:
  assumes "wf_hist h" and "200 \<le> length (Date h)"
  shows "Date (compute_indicators ticker meta h) = Date h \<and>
         Open (compute_indicators ticker meta h) = Open h \<and>
         High (compute_indicators ticker meta h) = High h \<and>
         Low (compute_indicators ticker meta h) = Low h \<and>
         Close (compute_indicators ticker meta h) = Close h \<and>
         Volume (compute_indicators ticker meta h) = Volume h \<and>
         length (Date (recent_hist (compute_indicators ticker meta h))) = 5 \<and>
         length (Open (recent_hist (compute_indicators ticker meta h))) = 5 \<and>
         length (High (recent_hist (compute_indicators ticker meta h))) = 5 \<and>
         length (Low (recent_hist (compute_indicators ticker meta h))) = 5 \<and>
         length (Close (recent_hist (compute_indicators ticker meta h))) = 5 \<and>
         length (Volume (recent_hist (compute_indicators ticker meta h))) = 5 \<and>
         (\<forall>k<5.
            stamp (Date (recent_hist (compute_indicators ticker meta h)) ! k) =
              stamp (Date h ! (length (Date h) - 5 + k)) \<and>
            Open (recent_hist (compute_indicators ticker meta h)) ! k =
              Open h ! (length (Date h) - 5 + k) \<and>
            High (recent_hist (compute_indicators ticker meta h)) ! k =
              High h ! (length (Date h) - 5 + k) \<and>
            Low (recent_hist (compute_indicators ticker meta h)) ! k =
              Low h ! (length (Date h) - 5 + k) \<and>
            Close (recent_hist (compute_indicators ticker meta h)) ! k =
              Close h ! (length (Date h) - 5 + k) \<and>
            Volume (recent_hist (compute_indicators ticker meta h)) ! k =
              Volume h ! (length (Date h) - 5 + k))"
proof -
  have len: "length (Open h) = length (Date h)" "length (High h) = length (Date h)"
    "length (Low h) = length (Date h)" "length (Close h) = length (Date h)"
    "length (Volume h) = length (Date h)"
    using assms(1) by (simp_all add: wf_hist_def)
  have five: "5 \<le> length (Date h)" using assms(2) by simp
  have lens: "length (Date (recent_hist (compute_indicators ticker meta h))) = 5"
    "length (Open (recent_hist (compute_indicators ticker meta h))) = 5"
    "length (High (recent_hist (compute_indicators ticker meta h))) = 5"
    "length (Low (recent_hist (compute_indicators ticker meta h))) = 5"
    "length (Close (recent_hist (compute_indicators ticker meta h))) = 5"
    "length (Volume (recent_hist (compute_indicators ticker meta h))) = 5"
    using five len by (simp_all add: length_tail)
  have rows: "stamp (Date (recent_hist (compute_indicators ticker meta h)) ! k) =
              stamp (Date h ! (length (Date h) - 5 + k)) \<and>
            Open (recent_hist (compute_indicators ticker meta h)) ! k =
              Open h ! (length (Date h) - 5 + k) \<and>
            High (recent_hist (compute_indicators ticker meta h)) ! k =
              High h ! (length (Date h) - 5 + k) \<and>
            Low (recent_hist (compute_indicators ticker meta h)) ! k =
              Low h ! (length (Date h) - 5 + k) \<and>
            Close (recent_hist (compute_indicators ticker meta h)) ! k =
              Close h ! (length (Date h) - 5 + k) \<and>
            Volume (recent_hist (compute_indicators ticker meta h)) ! k =
              Volume h ! (length (Date h) - 5 + k)" if "k < 5" for k
    using that five len by (simp add: tail_nth length_tail tz_localize_none_def)
  show ?thesis
    using lens rows by simp
qed

text \<open>The last five closes of the rising history are 295 to 299, and so is the window.\<close>

theorem original_columns_unchanged_witness:
  "wf_hist ramp_hist \<and> 200 \<le> length (Date ramp_hist) \<and>
   length (Close (recent_hist (compute_indicators ''RAMP'' Map.empty ramp_hist))) = 5 \<and>
   Close (recent_hist (compute_indicators ''RAMP'' Map.empty ramp_hist)) ! 0 = Num 295 \<and>
   Close (recent_hist (compute_indicators ''RAMP'' Map.empty ramp_hist)) ! 4 = Num 299"
  using original_columns_unchanged [of ramp_hist "''RAMP''" Map.empty]
  by simp

section \<open>The batch run\<close>

lemma all_data_emit [simp]: "all_data (emit e st) = all_data st"
  by (simp add: emit_def)

lemma events_emit [simp]: "events (emit e st) = events st @ [e]"
  by (simp add: emit_def)

lemma process_ticker_result:
  "process_ticker data ticker st =
     (case ticker_result data ticker of
        Recorded w \<Rightarrow> st\<lparr>all_data := AList.update ticker w (all_data st)\<rparr>
      | Skipped \<Rightarrow> emit (NotEnoughData ticker) st
      | Failed e \<Rightarrow> emit (ErrorProcessing ticker e) st)"
  by (simp add: process_ticker_def ticker_result_def split: option.splits sum.splits)

lemma ticker_result_cong: "data t = F t \<Longrightarrow> ticker_result data t = ticker_result F t"
  by (simp add: ticker_result_def)

lemma process_ticker_cong: "data t = F t \<Longrightarrow> process_ticker data t st = process_ticker F t st"
  by (simp add: process_ticker_def)

lemma all_data_process_ticker:
  "all_data (process_ticker data t st) = record_result data t (all_data st)"
  by (simp add: process_ticker_result record_result_def split: result.splits)

lemma all_data_fold_process:
  "all_data (fold (process_ticker data) ts st) = fold (record_result data) ts (all_data st)"
  by (induction ts arbitrary: st) (simp_all add: all_data_process_ticker)

lemma fold_record_cong:
  "\<forall>t \<in> set ts. data t = F t \<Longrightarrow>
   fold (record_result data) ts ad = fold (record_result F) ts ad"
proof (induction ts arbitrary: ad)
  case Nil
  then show ?case by simp
next
  case (Cons a ts)
  then have "record_result data a ad = record_result F a ad"
    using ticker_result_cong [of data a F] by (simp add: record_result_def)
  then show ?case using Cons by simp
qed

lemma fold_process_cong:
  "\<forall>t \<in> set ts. data t = F t \<Longrightarrow>
   fold (process_ticker data) ts st = fold (process_ticker F) ts st"
proof (induction ts arbitrary: st)
  case Nil
  then show ?case by simp
next
  case (Cons a ts)
  then have "process_ticker data a st = process_ticker F a st"
    using process_ticker_cong [of data a F] by simp
  then show ?case using Cons by simp
qed

lemma map_of_record_result:
  "map_of (record_result F a ad) t =
     (if t = a \<and> window_of (ticker_result F a) \<noteq> None
      then window_of (ticker_result F a) else map_of ad t)"
  by (cases "ticker_result F a") (simp_all add: record_result_def window_of_def update_conv')

lemma map_of_fold_record:
  "map_of (fold (record_result F) ts ad) t =
     (if t \<in> set ts \<and> window_of (ticker_result F t) \<noteq> None
      then window_of (ticker_result F t) else map_of ad t)"
proof (induction ts arbitrary: ad)
  case Nil
  then show ?case by simp
next
  case (Cons a ts)
  have "map_of (fold (record_result F) (a # ts) ad) t =
          map_of (fold (record_result F) ts (record_result F a ad)) t"
    by simp
  also have "\<dots> = (if t \<in> set ts \<and> window_of (ticker_result F t) \<noteq> None
      then window_of (ticker_result F t) else map_of (record_result F a ad) t)"
    by (rule Cons.IH)
  finally show ?case
    by (auto simp: map_of_record_result)
qed

lemma servesD:
  "serves yf F \<Longrightarrow> \<exists>data. yf (join '' '' batch) = Inr data \<and> (\<forall>t \<in> set batch. data t = F t)"
  by (simp add: serves_def)

declare batches.simps [simp del]

lemma batches_all_data:
  assumes "serves yf F" and "0 < bs"
  shows "\<exists>st'. batches bs yf ts i st = Inr st' \<and>
           all_data st' = fold (record_result F) (drop i ts) (all_data st)"
  using assms
proof (induction bs yf ts i st rule: batches.induct)
  case (1 bs yf ts i st)
  show ?case
  proof (cases "i < length ts")
    case False
    then show ?thesis
      using "1.prems" by (subst batches.simps) simp
  next
    case True
    let ?batch = "take bs (drop i ts)"
    let ?st1 = "emit (ProcessingBatch (i div bs + 1) ((length ts - 1) div bs + 1)
                   (length ?batch)) st"
    from servesD [OF "1.prems"(1), of ?batch] obtain data
      where data: "yf (join '' '' ?batch) = Inr data" "\<forall>t \<in> set ?batch. data t = F t"
      by blast
    have "\<exists>st'. batches bs yf ts (i + bs) (fold (process_ticker data) ?batch ?st1) = Inr st' \<and>
            all_data st' =
              fold (record_result F) (drop (i + bs) ts)
                (all_data (fold (process_ticker data) ?batch ?st1))"
      using "1.prems" True data(1) by (intro "1.IH") simp_all
    then obtain st' where st':
      "batches bs yf ts (i + bs) (fold (process_ticker data) ?batch ?st1) = Inr st'"
      "all_data st' =
         fold (record_result F) (drop (i + bs) ts)
           (all_data (fold (process_ticker data) ?batch ?st1))"
      by blast
    have run: "batches bs yf ts i st = Inr st'"
      using "1.prems" True data(1) st'(1) by (subst batches.simps) (simp add: Let_def)
    have "all_data (fold (process_ticker data) ?batch ?st1) =
            fold (record_result F) ?batch (all_data st)"
      using data(2) by (simp add: all_data_fold_process fold_record_cong)
    then have "all_data st' = fold (record_result F) (?batch @ drop (i + bs) ts) (all_data st)"
      using st'(2) by simp
    moreover have "?batch @ drop (i + bs) ts = drop i ts"
      using append_take_drop_id [of bs "drop i ts"] by (simp add: add.commute)
    ultimately show ?thesis
      using run by simp
  qed
qed

lemma fetch_stock_data_grouped_all_data:
  assumes "serves yf F" and "0 < bs"
  shows "\<exists>st. fetch_stock_data_grouped bs yf ts = Inr st \<and>
           all_data st = fold (record_result F) ts []"
  using batches_all_data [OF assms, of ts 0 "\<lparr>all_data = [], events = []\<rparr>"]
  by (simp add: fetch_stock_data_grouped_def)

lemma serves_demo: "serves demo_provider demo_tickers"
  unfolding serves_def demo_provider_def by (intro allI exI [of _ demo_tickers]) simp

lemma three_tickers:
  assumes "serves yf F" and "a \<noteq> c"
    and "ticker_result F a = Recorded wa" and "ticker_result F b = Failed e"
    and "ticker_result F c = Recorded wc"
  shows "fetch_stock_data yf [a, b, c] =
           Inr \<lparr>all_data = [(a, wa), (c, wc)],
                events = [ProcessingBatch 1 1 3, ErrorProcessing b e]\<rparr>"
proof -
  from servesD [OF assms(1), of "[a, b, c]"] obtain data
    where data: "yf (join '' '' [a, b, c]) = Inr data" "\<forall>t \<in> set [a, b, c]. data t = F t"
    by blast
  have res: "ticker_result data a = Recorded wa" "ticker_result data b = Failed e"
    "ticker_result data c = Recorded wc"
    using data(2) assms(3-5) ticker_result_cong [of data _ F] by simp_all
  have body: "process_ticker data c (process_ticker data b (process_ticker data a
            (emit ev \<lparr>all_data = [], events = []\<rparr>))) =
        \<lparr>all_data = [(a, wa), (c, wc)], events = [ev, ErrorProcessing b e]\<rparr>" for ev
    using assms(2) by (simp add: process_ticker_result res emit_def)
  show ?thesis
    using data(1)
    by (simp add: fetch_stock_data_def fetch_stock_data_grouped_def body
        batches.simps [of 50 yf "[a, b, c]" 0] batches.simps [of 50 yf "[a, b, c]" 50] Let_def
        numeral_3_eq_3)
qed

text \<open>
  Claim C4. With a provider that behaves per identifier, the run returns a result for
  every list of tickers: it holds a window for exactly the tickers of the list whose
  outcome is a recorded window, so a ticker whose fetch raised is left out and the others
  are not affected. For three tickers of which the second raises, the result holds the
  windows of the first and the third, in this order, and the exception is printed, not
  raised.
\<close>

theorem failures_are_isolated:
  assumes "serves yf F"
  shows "(\<exists>st. fetch_stock_data yf tickers = Inr st \<and>
            (\<forall>t. map_of (all_data st) t =
               (if t \<in> set tickers then window_of (ticker_result F t) else None))) \<and>
         (\<forall>a b c wa wc e.
            a \<noteq> c \<and> ticker_result F a = Recorded wa \<and> ticker_result F b = Failed e \<and>
            ticker_result F c = Recorded wc \<longrightarrow>
            fetch_stock_data yf [a, b, c] =
              Inr \<lparr>all_data = [(a, wa), (c, wc)],
                   events = [ProcessingBatch 1 1 3, ErrorProcessing b e]\<rparr>)"
proof -
  from fetch_stock_data_grouped_all_data [OF assms, of 50 tickers] obtain st
    where st: "fetch_stock_data yf tickers = Inr st"
      "all_data st = fold (record_result F) tickers []"
    by (auto simp: fetch_stock_data_def)
  have "map_of (all_data st) t =
          (if t \<in> set tickers then window_of (ticker_result F t) else None)" for t
    unfolding st(2) map_of_fold_record by auto
  then show ?thesis
    using st(1) three_tickers [OF assms] by blast
qed

lemma demo_results:
  "ticker_result demo_tickers ''AAA'' =
     Recorded (recent_hist (compute_indicators ''AAA'' [''sector'' \<mapsto> ''Energy''] ramp_hist))"
  "ticker_result demo_tickers ''BAD'' = Failed (OtherError ''timed out'')"
  "ticker_result demo_tickers ''CCC'' =
     Recorded (recent_hist (compute_indicators ''CCC'' Map.empty flat_hist))"
  "ticker_result demo_tickers ''NEW'' = Skipped"
  "ticker_result demo_tickers ''ZZZ'' = Failed (KeyError ''ZZZ'')"
  by (simp_all add: ticker_result_def demo_tickers_def short_hist_def)

text \<open>
  The example provider cannot fetch \<open>BAD\<close>: the run over \<open>AAA\<close>, \<open>BAD\<close>, \<open>CCC\<close>
  records the first and the third.
\<close>

theorem failures_are_isolated_witness:
  "serves demo_provider demo_tickers \<and>
   fetch_stock_data demo_provider [''AAA'', ''BAD'', ''CCC''] =
     Inr \<lparr>all_data =
            [(''AAA'', recent_hist (compute_indicators ''AAA'' [''sector'' \<mapsto> ''Energy''] ramp_hist)),
             (''CCC'', recent_hist (compute_indicators ''CCC'' Map.empty flat_hist))],
          events = [ProcessingBatch 1 1 3, ErrorProcessing ''BAD'' (OtherError ''timed out'')]\<rparr>"
  using failures_are_isolated [OF serves_demo, of "[]"] serves_demo demo_results
  by simp

text \<open>
  Claim C7. With a provider that behaves per identifier, the run with groups of 50 and
  the run with groups of any positive size \<open>n\<close>, in particular of size 1, both return,
  and with the same dictionary: the same keys in the same order, with the same windows.
\<close>

theorem grouping_is_transparent:
  assumes "serves yf F" and "0 < n"
  shows "\<exists>s50 sn. fetch_stock_data yf tickers = Inr s50 \<and>
           fetch_stock_data_grouped n yf tickers = Inr sn \<and>
           all_data s50 = all_data sn"
proof -
  from fetch_stock_data_grouped_all_data [OF assms(1), of 50 tickers] obtain s50
    where "fetch_stock_data yf tickers = Inr s50"
      "all_data s50 = fold (record_result F) tickers []"
    by (auto simp: fetch_stock_data_def)
  moreover from fetch_stock_data_grouped_all_data [OF assms, of tickers] obtain sn
    where "fetch_stock_data_grouped n yf tickers = Inr sn"
      "all_data sn = fold (record_result F) tickers []"
    by auto
  ultimately show ?thesis by simp
qed

text \<open>Groups of 50 and groups of 1 over four tickers of the example provider.\<close>

theorem grouping_is_transparent_witness:
  "serves demo_provider demo_tickers \<and> (0 :: nat) < 1 \<and>
   (\<exists>s50 s1. fetch_stock_data demo_provider [''AAA'', ''BAD'', ''CCC'', ''NEW''] = Inr s50 \<and>
      fetch_stock_data_grouped 1 demo_provider [''AAA'', ''BAD'', ''CCC'', ''NEW''] = Inr s1 \<and>
      all_data s50 = all_data s1)"
  using grouping_is_transparent [OF serves_demo, of 1 "[''AAA'', ''BAD'', ''CCC'', ''NEW'']"]
    serves_demo
  by simp

text \<open>
  Claim C2. A ticker whose history was fetched and has fewer than 200 bars is skipped:
  the outcome is \<open>Skipped\<close>, not a caught exception; the loop body only prints the
  message and leaves the dictionary as it was, so no indicator is computed; and the
  result of a run never holds a window for that ticker.
\<close>

theorem short_history_is_skipped:
  assumes "serves yf F" and "F ticker = Some stock" and "info stock = Inr meta"
    and "history stock = Inr h" and "length (Date h) < 200"
  shows "ticker_result F ticker = Skipped \<and>
         process_ticker F ticker st = emit (NotEnoughData ticker) st \<and>
         all_data (process_ticker F ticker st) = all_data st \<and>
         (\<exists>st'. fetch_stock_data yf tickers = Inr st' \<and> map_of (all_data st') ticker = None)"
proof -
  have skipped: "ticker_result F ticker = Skipped"
    using assms(2-5) by (simp add: ticker_result_def)
  then have body: "process_ticker F ticker st = emit (NotEnoughData ticker) st"
    by (simp add: process_ticker_result)
  from fetch_stock_data_grouped_all_data [OF assms(1), of 50 tickers] obtain st'
    where st': "fetch_stock_data yf tickers = Inr st'"
      "all_data st' = fold (record_result F) tickers []"
    by (auto simp: fetch_stock_data_def)
  have "map_of (all_data st') ticker = None"
    unfolding st'(2) map_of_fold_record using skipped by (simp add: window_of_def)
  then show ?thesis
    using skipped body st'(1) by simp
qed

text \<open>The ticker \<open>NEW\<close> of the example provider has ten bars.\<close>

theorem short_history_is_skipped_witness:
  "serves demo_provider demo_tickers \<and>
   demo_tickers ''NEW'' = Some \<lparr>info = Inr Map.empty, history = Inr short_hist\<rparr> \<and>
   length (Date short_hist) < 200 \<and>
   ticker_result demo_tickers ''NEW'' = Skipped \<and>
   (\<exists>st'. fetch_stock_data demo_provider [''AAA'', ''NEW''] = Inr st' \<and>
      map_of (all_data st') ''NEW'' = None)"
proof -
  have new: "demo_tickers ''NEW'' = Some \<lparr>info = Inr Map.empty, history = Inr short_hist\<rparr>"
    "length (Date short_hist) < 200"
    by (simp_all add: demo_tickers_def short_hist_def)
  show ?thesis
    using short_history_is_skipped [OF serves_demo new(1) _ _ new(2), of Map.empty
        "\<lparr>all_data = [], events = []\<rparr>" "[''AAA'', ''NEW'']"] serves_demo new
    by simp
qed

section \<open>The script\<close>

text \<open>
  Claim C8. With an empty list of tickers the script prints the count, the (empty)
  first tickers and the closing message, and writes neither the ticker file nor the
  report.
\<close>

theorem empty_ticker_list_writes_no_report:
  "script (Inr []) yf_Tickers =
     Inr [Print ''Fetching S&P 500 tickers from Wikipedia...'',
          TickerCount 0, FirstTickers [],
          Print ''No tickers retrieved. Please check dependencies and try again.''] \<and>
   filter writes_file
     [Print ''Fetching S&P 500 tickers from Wikipedia...'',
      TickerCount 0, FirstTickers [],
      Print ''No tickers retrieved. Please check dependencies and try again.''] = []"
  by (simp add: script_def script_body_def get_sp500_tickers_wikipedia_def writes_file_def)

text \<open>
  The same holds when reading the page fails with one of the caught exceptions, which
  the function turns into the empty list.
\<close>

lemma failed_source_writes_no_report:
  assumes "e = ImportError m \<or> e = RequestException m \<or> e = ValueError m"
  shows "\<exists>out. script (Inl e) yf_Tickers = Inr out \<and> filter writes_file out = [] \<and>
           last out = Print ''No tickers retrieved. Please check dependencies and try again.''"
  using assms
  by (auto simp: script_def script_body_def get_sp500_tickers_wikipedia_def writes_file_def)

end
